theory Spec2Isabelle
  imports Main
begin

section \<open>Strings\<close>

text \<open>
  A JavaScript string is a sequence of UTF-16 code units. The model uses \<^typ>\<open>string\<close>,
  one \<^typ>\<open>char\<close> per code unit, which covers the code units below 0x100. Of the four
  ECMAScript line terminators (LF, CR, U+2028, U+2029) only LF and CR lie in that range.
\<close>

abbreviation LF :: char where "LF \<equiv> CHR 0x0A"
abbreviation CR :: char where "CR \<equiv> CHR 0x0D"
abbreviation TAB :: char where "TAB \<equiv> CHR 0x09"
abbreviation DQ :: char where "DQ \<equiv> CHR 0x22"
abbreviation SQ :: char where "SQ \<equiv> CHR 0x27"
abbreviation BS :: char where "BS \<equiv> CHR 0x5C"

definition isLineTerminator :: "char \<Rightarrow> bool" where
  "isLineTerminator c \<longleftrightarrow> c = LF \<or> c = CR"

text \<open>
  \<open>String.prototype.toLowerCase\<close> on code units below 0x100: the letters A to Z and the
  Latin-1 capitals 0xC0 to 0xDE (without the multiplication sign 0xD7) move up by 0x20,
  which sets bit 5 of the code unit; every other unit stays.
\<close>

definition toLowerCase_unit :: "char \<Rightarrow> char" where
  "toLowerCase_unit c =
     (let n = (of_char c :: nat)
      in if (65 \<le> n \<and> n \<le> 90) \<or> (192 \<le> n \<and> n \<le> 222 \<and> n \<noteq> 215)
         then (case c of Char b0 b1 b2 b3 b4 b5 b6 b7 \<Rightarrow> Char b0 b1 b2 b3 b4 True b6 b7)
         else c)"

definition toLowerCase :: "string \<Rightarrow> string" where
  "toLowerCase s = map toLowerCase_unit s"

text \<open>\<open>Array.prototype.join\<close> on strings.\<close>

fun join :: "string \<Rightarrow> string list \<Rightarrow> string" where
  "join sep [] = []"
| "join sep [x] = x"
| "join sep (x # y # ys) = x @ sep @ join sep (y # ys)"

section \<open>Regular expressions with backtracking priority\<close>

text \<open>
  The fragment of ECMAScript regular expressions that the two patterns of the source use.
  \<open>ms r s\<close> lists, in the order in which the backtracking matcher of ECMAScript tries
  them, the rests of \<open>s\<close> that remain after a match of \<open>r\<close> at the start of \<open>s\<close>: a greedy
  quantifier tries one more iteration before it tries to stop, a lazy one the other way
  round, an alternation its left branch first. An iteration of a quantifier that consumes
  nothing is rejected, as RepeatMatcher does. The match the engine reports at a position is
  the head of the list.
\<close>

datatype rx =
    Eps                      \<comment> \<open>the empty pattern\<close>
  | Chr char                 \<comment> \<open>a literal code unit\<close>
  | OneOf "char list"        \<comment> \<open>a class \<open>[...]\<close>\<close>
  | NotIn "char list"        \<comment> \<open>a negated class \<open>[^...]\<close>\<close>
  | Dot                      \<comment> \<open>\<open>.\<close> without the s flag: anything but a line terminator\<close>
  | Eoi                      \<comment> \<open>\<open>$\<close> without the m flag: the end of the input\<close>
  | Seq rx rx
  | Alt rx rx
  | Opt rx                   \<comment> \<open>greedy \<open>?\<close>\<close>
  | Star rx                  \<comment> \<open>greedy \<open>*\<close>\<close>
  | LazyStar rx              \<comment> \<open>lazy \<open>*?\<close>\<close>

fun ms :: "rx \<Rightarrow> string \<Rightarrow> string list" where
  "ms Eps s = [s]"
| "ms (Chr c) s = (case s of [] \<Rightarrow> [] | x # xs \<Rightarrow> if x = c then [xs] else [])"
| "ms (OneOf cs) s = (case s of [] \<Rightarrow> [] | x # xs \<Rightarrow> if x \<in> set cs then [xs] else [])"
| "ms (NotIn cs) s = (case s of [] \<Rightarrow> [] | x # xs \<Rightarrow> if x \<in> set cs then [] else [xs])"
| "ms Dot s = (case s of [] \<Rightarrow> [] | x # xs \<Rightarrow> if isLineTerminator x then [] else [xs])"
| "ms Eoi s = (if s = [] then [s] else [])"
| "ms (Seq a b) s = concat (map (ms b) (ms a s))"
| "ms (Alt a b) s = ms a s @ ms b s"
| "ms (Opt a) s = filter (\<lambda>t. length t < length s) (ms a s) @ [s]"
| "ms (Star a) s =
     concat (map (ms (Star a)) (filter (\<lambda>t. length t < length s) (ms a s))) @ [s]"
| "ms (LazyStar a) s =
     s # concat (map (ms (LazyStar a)) (filter (\<lambda>t. length t < length s) (ms a s)))"

text \<open>The match at the start of \<open>s\<close>, as the rest behind it; \<open>None\<close> when there is none.\<close>

definition firstOf :: "'a list \<Rightarrow> 'a option" where
  "firstOf xs = (case xs of [] \<Rightarrow> None | t # _ \<Rightarrow> Some t)"

definition rx_match :: "rx \<Rightarrow> string \<Rightarrow> string option" where
  "rx_match r s = firstOf (ms r s)"

text \<open>
  \<open>RegExp.prototype.exec\<close> on a fresh pattern (\<open>lastIndex\<close> is 0), as far as its caller
  \<open>getJSFlags\<close> looks at it: whether the pattern matches at some position.
\<close>

fun rx_search :: "rx \<Rightarrow> string \<Rightarrow> bool" where
  "rx_search r [] = (rx_match r [] \<noteq> None)"
| "rx_search r (c # cs) = (rx_match r (c # cs) \<noteq> None \<or> rx_search r cs)"

text \<open>A literal run of code units; \<open>x+\<close>; \<open>x{2,}\<close>.\<close>

fun lit :: "string \<Rightarrow> rx" where
  "lit [] = Eps"
| "lit (c # cs) = Seq (Chr c) (lit cs)"

definition Plus :: "rx \<Rightarrow> rx" where
  "Plus a = Seq a (Star a)"

definition AtLeast2 :: "rx \<Rightarrow> rx" where
  "AtLeast2 a = Seq a (Seq a (Star a))"

section \<open>The comment stripper\<close>

text \<open>
  The four alternatives of the pattern of \<open>stripComments\<close>; each is one capture group:
  \<^verbatim>\<open>("(?:[^\\"]*(?:\\.)?)*")\<close>,
  \<^verbatim>\<open>('(?:[^\\']*(?:\\.)?)*')\<close>,
  \<^verbatim>\<open>(\/\*(?:\r?\n|.)*?\*\/)\<close> and
  \<^verbatim>\<open>(\/{2,}.*?(?:(?:\r?\n)|$))\<close>.
\<close>

definition group1 :: rx where
  "group1 = Seq (Chr DQ)
     (Seq (Star (Seq (Star (NotIn [BS, DQ])) (Opt (Seq (Chr BS) Dot)))) (Chr DQ))"

definition group2 :: rx where
  "group2 = Seq (Chr SQ)
     (Seq (Star (Seq (Star (NotIn [BS, SQ])) (Opt (Seq (Chr BS) Dot)))) (Chr SQ))"

definition group3 :: rx where
  "group3 = Seq (Chr CHR ''/'') (Seq (Chr CHR ''*'')
     (Seq (LazyStar (Alt (Seq (Opt (Chr CR)) (Chr LF)) Dot))
       (Seq (Chr CHR ''*'') (Chr CHR ''/''))))"

definition group4 :: rx where
  "group4 = Seq (AtLeast2 (Chr CHR ''/''))
     (Seq (LazyStar Dot) (Alt (Seq (Opt (Chr CR)) (Chr LF)) Eoi))"

text \<open>
  One match of the whole pattern at the start of the input: the captures \<open>m1\<close> to \<open>m4\<close>
  (at most one is defined, that of the first alternative that matches) and the rest of
  the input behind the match.
\<close>

record regexp_match =
  m1 :: "string option"
  m2 :: "string option"
  m3 :: "string option"
  m4 :: "string option"
  rest :: string

definition matched :: "string \<Rightarrow> string \<Rightarrow> string" where
  "matched s t = take (length s - length t) s"

definition regexp_exec :: "string \<Rightarrow> regexp_match option" where
  "regexp_exec s =
     (case rx_match group1 s of
        Some t \<Rightarrow> Some \<lparr>m1 = Some (matched s t), m2 = None, m3 = None, m4 = None, rest = t\<rparr>
      | None \<Rightarrow>
     (case rx_match group2 s of
        Some t \<Rightarrow> Some \<lparr>m1 = None, m2 = Some (matched s t), m3 = None, m4 = None, rest = t\<rparr>
      | None \<Rightarrow>
     (case rx_match group3 s of
        Some t \<Rightarrow> Some \<lparr>m1 = None, m2 = None, m3 = Some (matched s t), m4 = None, rest = t\<rparr>
      | None \<Rightarrow>
     (case rx_match group4 s of
        Some t \<Rightarrow> Some \<lparr>m1 = None, m2 = None, m3 = None, m4 = Some (matched s t), rest = t\<rparr>
      | None \<Rightarrow> None))))"

text \<open>JavaScript truthiness of a capture: defined and not the empty string.\<close>

definition truthy_str :: "string option \<Rightarrow> bool" where
  "truthy_str v \<longleftrightarrow> (case v of None \<Rightarrow> False | Some s \<Rightarrow> s \<noteq> [])"

text \<open>The replacer callback of \<open>stripComments\<close>: what one match is replaced with.\<close>

definition replacer :: "string \<Rightarrow> regexp_match \<Rightarrow> string" where
  "replacer whole m =
     (if truthy_str (m3 m) then []
      else if truthy_str (m4 m) then
        (let c = the (m4 m); length_1 = length c
         in if length_1 > 2 \<and> c ! (length_1 - 1) = LF
            then (if c ! (length_1 - 2) = CR then [CR, LF] else [LF])
            else [])
      else whole)"

text \<open>
  \<open>content.replace(regexp, replacer)\<close> with the g flag: at each position, from the left,
  the pattern is tried; a match is replaced and the scan goes on behind it, otherwise the
  code unit is kept. After an empty match the scan moves one unit on.
\<close>

function stripComments :: "string \<Rightarrow> string" where
  "stripComments [] =
     (case regexp_exec [] of None \<Rightarrow> [] | Some m \<Rightarrow> replacer [] m)"
| "stripComments (c # cs) =
     (case regexp_exec (c # cs) of
        None \<Rightarrow> c # stripComments cs
      | Some m \<Rightarrow>
          if length (rest m) < length (c # cs)
          then replacer (matched (c # cs) (rest m)) m @ stripComments (rest m)
          else replacer [] m @ c # stripComments cs)"
  by pat_completeness auto
termination
  by (relation "measure length") auto

section \<open>Command-line arguments\<close>

text \<open>
  A value of \<open>ParsedArgs\<close> under one of the keys that \<open>parseCLIArgs\<close> declares as string
  options: absent, a string, or the array of strings of an option given more than once.
\<close>

datatype argval = AUndefined | AString string | AStrings "string list"

type_synonym ParsedArgs = "string \<Rightarrow> argval"

definition truthy :: "argval \<Rightarrow> bool" where
  "truthy v \<longleftrightarrow> (case v of AUndefined \<Rightarrow> False | AString s \<Rightarrow> s \<noteq> [] | AStrings _ \<Rightarrow> True)"

text \<open>ToString, as \<open>exec\<close>, \<open>join\<close> and a template literal apply it to their operand.\<close>

definition ToString :: "argval \<Rightarrow> string" where
  "ToString v =
     (case v of AUndefined \<Rightarrow> ''undefined'' | AString s \<Rightarrow> s | AStrings xs \<Rightarrow> join '','' xs)"

text \<open>The pattern \<^verbatim>\<open>/max_old_space_size=(\d+)/g\<close> of \<open>getJSFlags\<close>.\<close>

definition max_old_space_size_regexp :: rx where
  "max_old_space_size_regexp = Seq (lit ''max_old_space_size='') (Plus (OneOf ''0123456789''))"

text \<open>
  \<open>getJSFlags\<close>: the array \<open>jsFlags\<close> holds each pushed value as \<open>join\<close> will render it;
  the result is \<open>None\<close> for \<open>null\<close>.
\<close>

definition getJSFlags :: "ParsedArgs \<Rightarrow> string option" where
  "getJSFlags cliArgs =
     (let jsFlags = [];
          jsFlags = (if truthy (cliArgs ''js-flags'')
                     then jsFlags @ [ToString (cliArgs ''js-flags'')] else jsFlags);
          jsFlags = (if truthy (cliArgs ''max-memory'') \<and>
                        \<not> rx_search max_old_space_size_regexp (ToString (cliArgs ''js-flags''))
                     then jsFlags @ [''--max_old_space_size='' @ ToString (cliArgs ''max-memory'')]
                     else jsFlags)
      in if length jsFlags > 0 then Some (join '' '' jsFlags) else None)"

section \<open>Values, errors and the surroundings of the startup script\<close>

text \<open>A JSON value; a number is kept as its literal, an object as its properties in order.\<close>

datatype json =
    JNull
  | JBool bool
  | JNumber string
  | JString string
  | JArray "json list"
  | JObject "(string \<times> json) list"

type_synonym object = "(string \<times> json) list"

text \<open>
  What can be thrown or rejected: the file-system code \<open>ENOENT\<close>, any other file-system
  fault, the \<open>SyntaxError\<close> of \<open>JSON.parse\<close>, a \<open>TypeError\<close>, and a rejection of a
  collaborator with its message.
\<close>

datatype fault = EACCES | EISDIR | EPERM | EIO

datatype error = ENOENT | Fault fault | SyntaxError | TypeError | Rejection string

datatype log = ConsoleError error | ConsoleWarn error

text \<open>
  The functions the script calls and that are not part of it, taken as parameters:
  \<open>bootstrap.readFile\<close> and \<open>bootstrap.mkdirp\<close> (the outcome of the promise),
  \<open>lp.getNLSConfiguration\<close> (rejected, resolved with \<open>undefined\<close>, or resolved with a
  configuration object), \<open>app.getLocale\<close>, \<open>path.join\<close>, \<open>JSON.parse\<close> (\<open>None\<close> for a
  \<open>SyntaxError\<close>) and \<open>JSON.stringify\<close>.
\<close>

record collaborators =
  readFile :: "string \<Rightarrow> error + string"
  mkdirp :: "string option \<Rightarrow> error + unit"
  getNLSConfiguration :: "string option \<Rightarrow> string \<Rightarrow> string \<Rightarrow> string \<Rightarrow> error + object option"
  getLocale :: string
  path_join :: "string list \<Rightarrow> string"
  JSON_parse :: "string \<Rightarrow> json option"
  JSON_stringify :: "json \<Rightarrow> string"

text \<open>
  The constants of the module: \<open>args\<close>, \<open>userDataPath\<close>, \<open>product.commit\<close>,
  \<open>metaDataFile\<close> and \<open>process.argv\<close>.
\<close>

record globals =
  args :: ParsedArgs
  userDataPath :: string
  commit :: "string option"
  metaDataFile :: string
  argv :: "string list"

text \<open>
  The mutable state: the module variable \<open>nlsConfigurationPromise\<close> (\<open>None\<close> while it is
  \<open>undefined\<close>, otherwise the outcome the promise settles with), the console, and
  \<open>process.env\<close>. Four more fields record what the script asks of its surroundings: the
  locales handed to \<open>lp.getNLSConfiguration\<close>, the number of calls of \<open>app.getLocale\<close>, the
  paths handed to \<open>bootstrap.readFile\<close>, and the number of times the main bundle is loaded.
\<close>

record state =
  nlsConfigurationPromise :: "(error + object option) option"
  console :: "log list"
  process_env :: "string \<Rightarrow> string option"
  nls_requests :: "string list"
  locale_queries :: nat
  files_read :: "string list"
  bundle_loads :: nat

definition console_error :: "error \<Rightarrow> state \<Rightarrow> state" where
  "console_error e st = st\<lparr>console := console st @ [ConsoleError e]\<rparr>"

section \<open>The locale chain\<close>

text \<open>
  \<open>JSON.parse(content).locale\<close>: reading the property of \<open>null\<close> throws, an object yields
  the property (\<open>None\<close> for \<open>undefined\<close>), every other value has no such property.
\<close>

fun prop_locale :: "json \<Rightarrow> error + json option" where
  "prop_locale JNull = Inl TypeError"
| "prop_locale (JObject kvs) = Inr (map_of kvs ''locale'')"
| "prop_locale _ = Inr None"

text \<open>\<open>value && typeof value === 'string' ? value.toLowerCase() : undefined\<close>\<close>

fun locale_value :: "json option \<Rightarrow> string option" where
  "locale_value (Some (JString v)) = (if v \<noteq> [] then Some (toLowerCase v) else None)"
| "locale_value _ = None"

text \<open>The body of the \<open>try\<close> of \<open>getUserDefinedLocale\<close>, on the outcome of the read.\<close>

definition read_locale :: "collaborators \<Rightarrow> error + string \<Rightarrow> error + string option" where
  "read_locale C r =
     (case r of
        Inl e \<Rightarrow> Inl e
      | Inr content \<Rightarrow>
          (case JSON_parse C (stripComments content) of
             None \<Rightarrow> Inl SyntaxError
           | Some j \<Rightarrow>
               (case prop_locale j of
                  Inl e \<Rightarrow> Inl e
                | Inr v \<Rightarrow> Inr (locale_value v))))"

text \<open>
  \<open>getUserDefinedLocale\<close>: the outcome of the promise (\<open>Inl\<close> when it rejects) and the
  state. The \<open>catch\<close> ignores the error and the function returns \<open>undefined\<close>.
\<close>

definition getUserDefinedLocale ::
  "collaborators \<Rightarrow> globals \<Rightarrow> state \<Rightarrow> (error + string option) \<times> state" where
  "getUserDefinedLocale C G st =
     (let locale = args G ''locale''
      in if truthy locale then
           (case locale of
              AString l \<Rightarrow> (Inr (Some (toLowerCase l)), st)
            | _ \<Rightarrow> (Inl TypeError, st))
         else
           (let localeConfig = path_join C [userDataPath G, ''User'', ''locale.json''];
                st' = st\<lparr>files_read := files_read st @ [localeConfig]\<rparr>
            in (case read_locale C (readFile C localeConfig) of
                  Inl e \<Rightarrow> (Inr None, st')
                | Inr v \<Rightarrow> (Inr v, st'))))"

text \<open>One call of \<open>lp.getNLSConfiguration(product.commit, userDataPath, metaDataFile, locale)\<close>.\<close>

definition lp_getNLSConfiguration ::
  "collaborators \<Rightarrow> globals \<Rightarrow> string \<Rightarrow> state \<Rightarrow> (error + object option) \<times> state" where
  "lp_getNLSConfiguration C G locale st =
     (getNLSConfiguration C (commit G) (userDataPath G) (metaDataFile G) locale,
      st\<lparr>nls_requests := nls_requests st @ [locale]\<rparr>)"

text \<open>
  The callback of \<open>userDefinedLocale.then\<close> at the top of the module; it does not run when
  the promise rejects.
\<close>

definition userDefinedLocale_then ::
  "collaborators \<Rightarrow> globals \<Rightarrow> error + string option \<Rightarrow> state \<Rightarrow> state" where
  "userDefinedLocale_then C G udl st =
     (case udl of
        Inl e \<Rightarrow> st
      | Inr locale \<Rightarrow>
          if truthy_str locale \<and> nlsConfigurationPromise st = None
          then (let (p, st') = lp_getNLSConfiguration C G (the locale) st
                in st'\<lparr>nlsConfigurationPromise := Some p\<rparr>)
          else st)"

text \<open>\<open>await nlsConfigurationPromise\<close>; awaiting \<open>undefined\<close> yields \<open>undefined\<close>.\<close>

definition await :: "(error + object option) option \<Rightarrow> error + object option" where
  "await p = (case p of None \<Rightarrow> Inr None | Some r \<Rightarrow> r)"

definition fallback_configuration :: "string \<Rightarrow> object" where
  "fallback_configuration locale =
     [(''locale'', JString locale), (''availableLanguages'', JObject [])]"

definition resolveNlsConfiguration ::
  "collaborators \<Rightarrow> globals \<Rightarrow> string option \<Rightarrow> state \<Rightarrow> (error + object) \<times> state" where
  "resolveNlsConfiguration C G locale st =
     (let st1 =
        (if truthy_str locale \<and> nlsConfigurationPromise st = None
         then (let (p, st') = lp_getNLSConfiguration C G (the locale) st
               in st'\<lparr>nlsConfigurationPromise := Some p\<rparr>)
         else if nlsConfigurationPromise st = None
         then st\<lparr>nlsConfigurationPromise := Some (Inr None)\<rparr>
         else st)
      in case await (nlsConfigurationPromise st1) of
           Inl e \<Rightarrow> (Inl e, st1)
         | Inr (Some nlsConfiguration) \<Rightarrow> (Inr nlsConfiguration, st1)
         | Inr None \<Rightarrow>
             (let st2 = st1\<lparr>locale_queries := Suc (locale_queries st1)\<rparr>;
                  appLocale = getLocale C
              in if appLocale = [] then (Inr (fallback_configuration ''en''), st2)
                 else
                   (let appLocale = toLowerCase appLocale;
                        (r, st3) = lp_getNLSConfiguration C G appLocale st2
                    in case r of
                         Inl e \<Rightarrow> (Inl e, st3)
                       | Inr (Some nlsConfiguration) \<Rightarrow> (Inr nlsConfiguration, st3)
                       | Inr None \<Rightarrow> (Inr (fallback_configuration appLocale), st3))))"

section \<open>The cache directory\<close>

text \<open>\<open>Array.prototype.indexOf\<close>: the first index of the element, or \<open>-1\<close>.\<close>

fun indexOf :: "'a list \<Rightarrow> 'a \<Rightarrow> int" where
  "indexOf [] x = -1"
| "indexOf (y # ys) x = (if y = x then 0 else (let i = indexOf ys x in if i < 0 then -1 else i + 1))"

text \<open>
  \<open>_compute\<close> of the object that \<open>getNodeCachedDir\<close> returns; \<open>None\<close> where the source
  returns \<open>undefined\<close>. An environment variable or a commit that is the empty string is falsy.
\<close>

definition NodeCachedDir_compute ::
  "collaborators \<Rightarrow> globals \<Rightarrow> (string \<Rightarrow> string option) \<Rightarrow> string option" where
  "NodeCachedDir_compute C G env =
     (if indexOf (argv G) ''--no-cached-data'' > 0 then None
      else if truthy_str (env ''VSCODE_DEV'') then None
      else if \<not> truthy_str (commit G) then None
      else Some (path_join C [userDataPath G, ''CachedData'', the (commit G)]))"

text \<open>\<open>ensureExists\<close>: the value when \<open>mkdirp\<close> resolves, \<open>undefined\<close> when it rejects.\<close>

definition ensureExists :: "collaborators \<Rightarrow> string option \<Rightarrow> string option" where
  "ensureExists C v = (case mkdirp C v of Inl e \<Rightarrow> None | Inr _ \<Rightarrow> v)"

section \<open>Startup\<close>

text \<open>Assignment to a property of an object: in place when it exists, appended otherwise.\<close>

fun set_prop :: "object \<Rightarrow> string \<Rightarrow> json \<Rightarrow> object" where
  "set_prop [] k v = [(k, v)]"
| "set_prop ((k', v') # kvs) k v =
     (if k' = k then (k, v) # kvs else (k', v') # set_prop kvs k v)"

definition startup :: "collaborators \<Rightarrow> string option \<Rightarrow> object \<Rightarrow> state \<Rightarrow> state" where
  "startup C cachedDataDir nlsConfig st =
     (let nlsConfig = set_prop nlsConfig ''_languagePackSupport'' (JBool True);
          env = (process_env st)(''VSCODE_NLS_CONFIG'' \<mapsto> JSON_stringify C (JObject nlsConfig));
          env = env(''VSCODE_NODE_CACHED_DATA_DIR'' \<mapsto>
                 (if truthy_str cachedDataDir then the cachedDataDir else []))
      in st\<lparr>process_env := env, bundle_loads := Suc (bundle_loads st)\<rparr>)"

text \<open>
  \<open>onReady\<close>, on the cache directory computed at the top of the module and the outcome of
  \<open>userDefinedLocale\<close>. A rejection inside the \<open>try\<close> ends in the \<open>catch\<close>, which logs it.
\<close>

definition onReady ::
  "collaborators \<Rightarrow> globals \<Rightarrow> string option \<Rightarrow> error + string option \<Rightarrow> state \<Rightarrow> state" where
  "onReady C G nodeCachedDataDir userDefinedLocale st =
     (let cachedDataDir = ensureExists C nodeCachedDataDir
      in case userDefinedLocale of
           Inl e \<Rightarrow> console_error e st
         | Inr locale \<Rightarrow>
             (case resolveNlsConfiguration C G locale st of
                (Inl e, st') \<Rightarrow> console_error e st'
              | (Inr nlsConfig, st') \<Rightarrow> startup C cachedDataDir nlsConfig st'))"

definition initial_state :: "(string \<Rightarrow> string option) \<Rightarrow> state" where
  "initial_state env =
     \<lparr>nlsConfigurationPromise = None, console = [], process_env = env, nls_requests = [],
      locale_queries = 0, files_read = [], bundle_loads = 0\<rparr>"

section \<open>The flags file\<close>

text \<open>
  The file system as \<open>readFileSync\<close> and \<open>writeFileSync\<close> see it: a path is absent (the read
  throws \<open>ENOENT\<close>), present but unreadable, or a file with its content; a write to a path
  may fail with any error.
\<close>

datatype entry = Absent | Unreadable fault | File string

record filesystem =
  entries :: "string \<Rightarrow> entry"
  write_fault :: "string \<Rightarrow> error option"

definition readFileSync :: "filesystem \<Rightarrow> string \<Rightarrow> error + string" where
  "readFileSync fs p =
     (case entries fs p of Absent \<Rightarrow> Inl ENOENT | Unreadable f \<Rightarrow> Inl (Fault f) | File c \<Rightarrow> Inr c)"

definition writeFileSync :: "filesystem \<Rightarrow> string \<Rightarrow> string \<Rightarrow> error + filesystem" where
  "writeFileSync fs p c =
     (case write_fault fs p of
        Some e \<Rightarrow> Inl e
      | None \<Rightarrow> Inr (fs\<lparr>entries := (entries fs)(p := File c)\<rparr>))"

record flags_world =
  disk :: filesystem
  flags_console :: "log list"

definition default_flagsConfig :: json where
  "default_flagsConfig = JObject [(''disable-color-correct-rendering'', JBool True)]"

definition defaultFlagsConfigRaw :: string where
  "defaultFlagsConfigRaw = join [LF]
     [''// Allows to pass flags to Chromium's command line.'',
      ''//'',
      ''// If you see rendering issues in VSCode and have a better experience'',
      ''// with software rendering, you can configure this by adding:'',
      ''//'',
      ''// 'disable-gpu': true'',
      ''//'',
      ''// NOTE: Changing this file requires a restart of VSCode.'',
      ''//'',
      ''// PLEASE DO NOT CHANGE WITHOUT UNDERSTANDING THE IMPACT'',
      ''{'',
      TAB # ''// Enabled by default by VSCode to resolve color issues in the renderer'',
      TAB # ''// See https://github.com/Microsoft/vscode/issues/51791 for details'',
      TAB # DQ # ''disable-color-correct-rendering'' @ DQ # '': true'',
      ''}'']"

text \<open>
  The block of \<open>configureCommandlineSwitches\<close> that reads or creates \<open>flags.json\<close>: the
  value of \<open>flagsConfig\<close> behind the \<open>try\<close> and the world.
\<close>

definition flags_catch :: "string \<Rightarrow> error \<Rightarrow> flags_world \<Rightarrow> json \<times> flags_world" where
  "flags_catch flagsConfigPath e w =
     (if e = ENOENT then
        (case writeFileSync (disk w) flagsConfigPath defaultFlagsConfigRaw of
           Inl e' \<Rightarrow> (default_flagsConfig, w\<lparr>flags_console := flags_console w @ [ConsoleError e']\<rparr>)
         | Inr d \<Rightarrow> (default_flagsConfig, w\<lparr>disk := d\<rparr>))
      else (default_flagsConfig, w\<lparr>flags_console := flags_console w @ [ConsoleWarn e]\<rparr>))"

definition loadFlagsConfig ::
  "collaborators \<Rightarrow> globals \<Rightarrow> flags_world \<Rightarrow> json \<times> flags_world" where
  "loadFlagsConfig C G w =
     (let flagsConfigPath = path_join C [userDataPath G, ''User'', ''flags.json'']
      in case readFileSync (disk w) flagsConfigPath of
           Inl e \<Rightarrow> flags_catch flagsConfigPath e w
         | Inr content \<Rightarrow>
             (case JSON_parse C (stripComments content) of
                None \<Rightarrow> flags_catch flagsConfigPath SyntaxError w
              | Some flagsConfig \<Rightarrow> (flagsConfig, w)))"

text \<open>The path of the flags file.\<close>

definition flagsConfigPath :: "collaborators \<Rightarrow> globals \<Rightarrow> string" where
  "flagsConfigPath C G = path_join C [userDataPath G, ''User'', ''flags.json'']"

section \<open>The module body\<close>

text \<open>
  What \<open>configureCommandlineSwitches\<close> does to Electron's \<open>app\<close>: the calls of
  \<open>app.commandLine.appendArgument\<close> and \<open>app.commandLine.appendSwitch\<close> in order, and whether
  hardware acceleration is still on. The calls themselves are taken not to throw.
\<close>

datatype cmd = AppendArgument string | AppendSwitch string "json option"

record electron_app =
  commandLine :: "cmd list"
  hardwareAcceleration :: bool

text \<open>A natural number in decimal, as the keys of an array are written.\<close>

fun show_nat :: "nat \<Rightarrow> string" where
  "show_nat n =
     (if n < 10 then [''0123456789'' ! n]
      else show_nat (n div 10) @ [''0123456789'' ! (n mod 10)])"

text \<open>
  \<open>Object.keys(flagsConfig)\<close> and \<open>flagsConfig[flag]\<close> on a parsed JSON value: \<open>null\<close> throws a
  \<open>TypeError\<close>, an object has its properties (listed in the order of \<open>Object.keys\<close>), an array
  and a string have their indices, a boolean and a number have no keys.
\<close>

fun Object_keys :: "json \<Rightarrow> error + string list" where
  "Object_keys JNull = Inl TypeError"
| "Object_keys (JObject kvs) = Inr (map fst kvs)"
| "Object_keys (JArray xs) = Inr (map show_nat [0..<length xs])"
| "Object_keys (JString s) = Inr (map show_nat [0..<length s])"
| "Object_keys _ = Inr []"

fun member :: "json \<Rightarrow> string \<Rightarrow> json option" where
  "member (JObject kvs) k = map_of kvs k"
| "member (JArray xs) k = map_of (zip (map show_nat [0..<length xs]) xs) k"
| "member (JString s) k =
     map_of (zip (map show_nat [0..<length s]) (map (\<lambda>c. JString [c]) s)) k"
| "member _ k = None"

text \<open>The callback of \<open>forEach\<close>: one flag is handed to Electron.\<close>

definition append_flag :: "json \<Rightarrow> string \<Rightarrow> electron_app \<Rightarrow> electron_app" where
  "append_flag flagsConfig flag a =
     (let v = member flagsConfig flag
      in if v = Some (JBool True) \<or> v = Some (JString ''true'') then
           (let a = (if flag = ''disable-gpu'' then a\<lparr>hardwareAcceleration := False\<rparr> else a)
            in a\<lparr>commandLine := commandLine a @ [AppendArgument flag]\<rparr>)
         else a\<lparr>commandLine := commandLine a @ [AppendSwitch flag v]\<rparr>)"

text \<open>
  \<open>configureCommandlineSwitches(args)\<close>: the flags file is read or created, each flag is
  appended, then the JS flags. \<open>Object.keys\<close> stands outside the \<open>try\<close>: its \<open>TypeError\<close>
  leaves the function, and is the first component of the result.
\<close>

definition configureCommandlineSwitches ::
  "collaborators \<Rightarrow> globals \<Rightarrow> flags_world \<Rightarrow> electron_app \<Rightarrow>
     error option \<times> flags_world \<times> electron_app" where
  "configureCommandlineSwitches C G w a =
     (let (flagsConfig, w') = loadFlagsConfig C G w
      in case Object_keys flagsConfig of
           Inl e \<Rightarrow> (Some e, w', a)
         | Inr flags \<Rightarrow>
             (let a = fold (append_flag flagsConfig) flags a;
                  jsFlags = getJSFlags (args G)
              in (None, w',
                  if truthy_str jsFlags
                  then a\<lparr>commandLine := commandLine a @
                         [AppendSwitch ''js-flags'' (Some (JString (the jsFlags)))]\<rparr>
                  else a)))"

text \<open>
  The module from the call of \<open>getUserDefinedLocale\<close> to the end of \<open>onReady\<close>, in the order
  of the source: the locale lookup is started, the cache directory is computed, the command
  line switches are configured, and only then is the listener for \<open>ready\<close> registered. When
  \<open>configureCommandlineSwitches\<close> throws, the module body ends there with an uncaught
  exception: no listener exists and \<open>onReady\<close> never runs; the run holds the exception and
  the state at the throw. Otherwise the callback registered with \<open>then\<close> on
  \<open>userDefinedLocale\<close> at the top of the module runs before the continuation of \<open>onReady\<close>,
  which awaits the same promise later. What the locale chain and \<open>onReady\<close> log is in the
  console of the state; what \<open>configureCommandlineSwitches\<close> logs is in the console of its
  world.
\<close>

record run =
  thrown :: "error option"
  final_state :: state
  final_world :: flags_world
  final_app :: electron_app

definition main_run ::
  "collaborators \<Rightarrow> globals \<Rightarrow> state \<Rightarrow> flags_world \<Rightarrow> electron_app \<Rightarrow> run" where
  "main_run C G st w a =
     (let (userDefinedLocale, st1) = getUserDefinedLocale C G st;
          nodeCachedDataDir = NodeCachedDir_compute C G (process_env st1)
      in case configureCommandlineSwitches C G w a of
           (Some e, w', a') \<Rightarrow>
             \<lparr>thrown = Some e, final_state = st1, final_world = w', final_app = a'\<rparr>
         | (None, w', a') \<Rightarrow>
             (let st2 = userDefinedLocale_then C G userDefinedLocale st1
              in \<lparr>thrown = None,
                  final_state = onReady C G nodeCachedDataDir userDefinedLocale st2,
                  final_world = w', final_app = a'\<rparr>))"

section \<open>The comment stripper, one construct at a time\<close>

text \<open>
  What the four alternatives of the pattern match, written as scanners: the rest behind
  the closing quote of a string whose opening quote is consumed, behind the end of a block
  comment whose \<open>/*\<close> is consumed, and behind the end of a line comment whose first two
  slashes are consumed. They are proved below to be what \<open>rx_match\<close> computes.
\<close>

fun string_body :: "char \<Rightarrow> string \<Rightarrow> string option" where
  "string_body q [] = None"
| "string_body q (c # cs) =
     (if c = q then Some cs
      else if c = BS then
        (case cs of [] \<Rightarrow> None
         | d # ds \<Rightarrow> if isLineTerminator d then None else string_body q ds)
      else string_body q cs)"

fun block_body :: "string \<Rightarrow> string option" where
  "block_body [] = None"
| "block_body (c # cs) =
     (if c = CHR ''*'' \<and> take 1 cs = ''/'' then Some (drop 1 cs)
      else if c = CR then
        (case cs of [] \<Rightarrow> None | d # ds \<Rightarrow> if d = LF then block_body ds else None)
      else block_body cs)"

fun line_body :: "string \<Rightarrow> string option" where
  "line_body [] = Some []"
| "line_body (c # cs) =
     (if c = LF then Some cs
      else if c = CR then
        (case cs of [] \<Rightarrow> None | d # ds \<Rightarrow> if d = LF then Some ds else None)
      else line_body cs)"

text \<open>The line end that a matched line comment is replaced with.\<close>

fun line_newline :: "string \<Rightarrow> string" where
  "line_newline [] = []"
| "line_newline (c # cs) =
     (if c = LF then [LF] else if c = CR then [CR, LF] else line_newline cs)"

text \<open>A text in which no \<open>*/\<close> occurs.\<close>

fun no_block_end :: "string \<Rightarrow> bool" where
  "no_block_end (c # d # cs) = (\<not> (c = CHR ''*'' \<and> d = CHR ''/'') \<and> no_block_end (d # cs))"
| "no_block_end _ = True"

definition string_rx :: "char \<Rightarrow> rx" where
  "string_rx q = Seq (Chr q)
     (Seq (Star (Seq (Star (NotIn [BS, q])) (Opt (Seq (Chr BS) Dot)))) (Chr q))"

definition body_iter :: "char \<Rightarrow> rx" where
  "body_iter q = Seq (Star (NotIn [BS, q])) (Opt (Seq (Chr BS) Dot))"

definition comment_unit :: rx where
  "comment_unit = Alt (Seq (Opt (Chr CR)) (Chr LF)) Dot"

definition line_end :: rx where
  "line_end = Alt (Seq (Opt (Chr CR)) (Chr LF)) Eoi"

text \<open>The default template of the flags file without its comments.\<close>

definition strippedDefaultFlagsConfig :: string where
  "strippedDefaultFlagsConfig =
     replicate 10 LF @ ''{'' @ [LF, TAB, LF, TAB, LF, TAB, DQ] @
     ''disable-color-correct-rendering'' @ [DQ] @ '': true'' @ [LF] @ ''}''"

section \<open>Sample surroundings\<close>

text \<open>
  Concrete collaborators and module constants, for the examples: the locale file is
  \<open>/data/User/locale.json\<close>, \<open>JSON.parse\<close> is a table from texts to values, and the
  serialiser writes no escapes and no white space.
\<close>

fun show_json :: "json \<Rightarrow> string" where
  "show_json JNull = ''null''"
| "show_json (JBool b) = (if b then ''true'' else ''false'')"
| "show_json (JNumber n) = n"
| "show_json (JString s) = DQ # s @ [DQ]"
| "show_json (JArray xs) = ''['' @ join '','' (map show_json xs) @ '']''"
| "show_json (JObject kvs) =
     ''{'' @ join '','' (map (\<lambda>(k, v). DQ # k @ DQ # '':'' @ show_json v) kvs) @ ''}''"

definition sample_collaborators ::
  "(error + string) \<Rightarrow> (string \<times> json) list \<Rightarrow> (string \<Rightarrow> error + object option) \<Rightarrow> string \<Rightarrow>
     (error + unit) \<Rightarrow> collaborators" where
  "sample_collaborators file parses provider appLocale mk =
     \<lparr>readFile = (\<lambda>p. if p = ''/data/User/locale.json'' then file else Inl ENOENT),
      mkdirp = (\<lambda>_. mk),
      getNLSConfiguration = (\<lambda>_ _ _. provider),
      getLocale = appLocale,
      path_join = join ''/'',
      JSON_parse = map_of parses,
      JSON_stringify = show_json\<rparr>"

definition sample_globals :: "argval \<Rightarrow> globals" where
  "sample_globals locale =
     \<lparr>args = (\<lambda>_. AUndefined)(''locale'' := locale),
      userDataPath = ''/data'',
      commit = Some ''abc123'',
      metaDataFile = ''/app/nls.metadata.json'',
      argv = [''/app/code'']\<rparr>"

definition sample_provider :: "string \<Rightarrow> error + object option" where
  "sample_provider locale =
     (if locale = ''fr'' then Inr (Some [(''locale'', JString ''fr''), (''pack'', JString ''fr.pack'')])
      else if locale = ''xx'' then Inl (Rejection ''no metadata'')
      else Inr None)"

definition sample_disk :: "entry \<Rightarrow> flags_world" where
  "sample_disk e =
     \<lparr>disk = \<lparr>entries = (\<lambda>_. Absent)(''/data/User/flags.json'' := e), write_fault = (\<lambda>_. None)\<rparr>,
      flags_console = []\<rparr>"

definition sample_app :: electron_app where
  "sample_app = \<lparr>commandLine = [], hardwareAcceleration = True\<rparr>"

section \<open>A reference stripper\<close>

text \<open>
  The stripper as the specification words it, as a scanner with four modes: outside
  strings and comments, inside a string opened by a quote (a backslash takes the next unit
  with it), inside a block comment, inside a line comment. Strings are copied, block
  comments dropped, and of a line comment only its line end \<open>\n\<close> or \<open>\r\n\<close> is kept.

  \<open>wellformed strict m s\<close>: every string of \<open>s\<close> is closed and no backslash in it stands
  before a line terminator, and every block comment is closed. With \<open>strict\<close>, moreover,
  every carriage return inside a comment is followed by a line feed.
\<close>

datatype mode = Code | Str char | Block | Line

function reference_strip :: "mode \<Rightarrow> string \<Rightarrow> string" where
  "reference_strip m [] = []"
| "reference_strip Code (c # cs) =
     (if c = DQ \<or> c = SQ then c # reference_strip (Str c) cs
      else if c = CHR ''/'' \<and> take 1 cs = ''*'' then reference_strip Block (drop 1 cs)
      else if c = CHR ''/'' \<and> take 1 cs = ''/'' then reference_strip Line (drop 1 cs)
      else c # reference_strip Code cs)"
| "reference_strip (Str q) (c # cs) =
     (if c = q then c # reference_strip Code cs
      else if c = BS then
        (case cs of [] \<Rightarrow> [c] | d # ds \<Rightarrow> c # d # reference_strip (Str q) ds)
      else c # reference_strip (Str q) cs)"
| "reference_strip Block (c # cs) =
     (if c = CHR ''*'' \<and> take 1 cs = ''/'' then reference_strip Code (drop 1 cs)
      else reference_strip Block cs)"
| "reference_strip Line (c # cs) =
     (if c = LF then LF # reference_strip Code cs
      else if c = CR \<and> take 1 cs = [LF] then CR # LF # reference_strip Code (drop 1 cs)
      else reference_strip Line cs)"
  by pat_completeness auto
termination
  by (relation "measure (\<lambda>(m, s). length s)") auto

function wellformed :: "bool \<Rightarrow> mode \<Rightarrow> string \<Rightarrow> bool" where
  "wellformed strict Code [] = True"
| "wellformed strict (Str q) [] = False"
| "wellformed strict Block [] = False"
| "wellformed strict Line [] = True"
| "wellformed strict Code (c # cs) =
     (if c = DQ \<or> c = SQ then wellformed strict (Str c) cs
      else if c = CHR ''/'' \<and> take 1 cs = ''*'' then wellformed strict Block (drop 1 cs)
      else if c = CHR ''/'' \<and> take 1 cs = ''/'' then wellformed strict Line (drop 1 cs)
      else wellformed strict Code cs)"
| "wellformed strict (Str q) (c # cs) =
     (if c = q then wellformed strict Code cs
      else if c = BS then
        (case cs of [] \<Rightarrow> False
         | d # ds \<Rightarrow> \<not> isLineTerminator d \<and> wellformed strict (Str q) ds)
      else wellformed strict (Str q) cs)"
| "wellformed strict Block (c # cs) =
     (if c = CHR ''*'' \<and> take 1 cs = ''/'' then wellformed strict Code (drop 1 cs)
      else if strict \<and> c = CR \<and> take 1 cs \<noteq> [LF] then False
      else wellformed strict Block cs)"
| "wellformed strict Line (c # cs) =
     (if c = LF then wellformed strict Code cs
      else if c = CR \<and> take 1 cs = [LF] then wellformed strict Code (drop 1 cs)
      else if strict \<and> c = CR then False
      else wellformed strict Line cs)"
  by pat_completeness auto
termination
  by (relation "measure (\<lambda>(b, m, s). length s)") auto

section \<open>The pattern and the scanners agree\<close>

declare ms.simps(7,10,11) [simp del]
lemmas ms_Seq = ms.simps(7)
lemmas ms_Star = ms.simps(10)
lemmas ms_LazyStar = ms.simps(11)

lemma firstOf_simps [simp]:
  "firstOf [] = None" "firstOf (x # xs) = Some x"
  "firstOf (xs @ ys) = (case firstOf xs of None \<Rightarrow> firstOf ys | Some t \<Rightarrow> Some t)"
  by (auto simp: firstOf_def split: list.splits)

lemma ms_plain_star:
  "ms (Star (NotIn [BS, q])) (c # cs) =
     (if c \<noteq> BS \<and> c \<noteq> q then ms (Star (NotIn [BS, q])) cs else []) @ [c # cs]"
  by (subst ms_Star) simp

lemma ms_plain_star_Nil: "ms (Star (NotIn [BS, q])) [] = [[]]"
  by (subst ms_Star) simp

lemma ms_escape:
  "ms (Opt (Seq (Chr BS) Dot)) s =
     (case s of c # d # ds \<Rightarrow> if c = BS \<and> \<not> isLineTerminator d then [ds] else [] | _ \<Rightarrow> []) @ [s]"
  by (auto simp: ms_Seq split: list.splits)

lemma self_in_star: "s \<in> set (ms (Star a) s)"
  by (subst ms_Star) simp

lemma plain_star_body:
  "q \<noteq> BS \<Longrightarrow> u \<in> set (ms (Star (NotIn [BS, q])) s) \<Longrightarrow> string_body q u = string_body q s"
proof (induction s)
  case Nil
  then show ?case by (simp add: ms_plain_star_Nil)
next
  case (Cons c cs)
  then show ?case by (auto simp: ms_plain_star split: if_splits)
qed

lemma escape_body:
  "q \<noteq> BS \<Longrightarrow> t \<in> set (ms (Opt (Seq (Chr BS) Dot)) u) \<Longrightarrow> string_body q t = string_body q u"
  by (auto simp: ms_Seq split: list.splits if_splits)

lemma plain_star_length:
  "u \<in> set (ms (Star (NotIn [BS, q])) s) \<Longrightarrow> length u \<le> length s"
  by (induction s) (auto simp: ms_plain_star ms_plain_star_Nil split: if_splits)

lemma iter_body:
  assumes "q \<noteq> BS" and "t \<in> set (ms (body_iter q) s)"
  shows "string_body q t = string_body q s"
proof -
  from assms(2) obtain u where u: "u \<in> set (ms (Star (NotIn [BS, q])) s)"
    and t: "t \<in> set (ms (Opt (Seq (Chr BS) Dot)) u)"
    by (auto simp: body_iter_def ms_Seq)
  from escape_body [OF assms(1) t] plain_star_body [OF assms(1) u] show ?thesis by simp
qed

lemma iter_progress:
  assumes "q \<noteq> BS" and "c \<noteq> q" and "string_body q (c # cs) \<noteq> None"
  shows "\<exists>t \<in> set (ms (body_iter q) (c # cs)). length t < length (c # cs)"
proof (cases "c = BS")
  case True
  with assms obtain d ds where cs: "cs = d # ds" and d: "\<not> isLineTerminator d"
    by (auto split: list.splits if_splits)
  have "ds \<in> set (ms (body_iter q) (c # cs))"
    using True d by (simp add: body_iter_def cs ms_plain_star ms_Seq ms_escape)
  then show ?thesis unfolding cs by (rule bexI [rotated]) simp
next
  case False
  have "cs \<in> set (ms (Star (NotIn [BS, q])) cs)" by (rule self_in_star)
  then have "cs \<in> set (ms (body_iter q) (c # cs))"
    using False assms(2) by (auto simp: body_iter_def ms_plain_star ms_escape ms_Seq)
  then show ?thesis by auto
qed

lemma ms_body_close:
  "set (ms (Seq (Star (body_iter q)) (Chr q)) s) =
     (\<Union>t \<in> {t \<in> set (ms (body_iter q) s). length t < length s}.
        set (ms (Seq (Star (body_iter q)) (Chr q)) t)) \<union> set (ms (Chr q) s)"
  by (subst ms_Seq, subst ms_Star) (auto simp: ms_Seq)

lemma string_body_set:
  assumes "q \<noteq> BS"
  shows "set (ms (Seq (Star (body_iter q)) (Chr q)) s) = set_option (string_body q s)"
proof (induction s rule: length_induct)
  case (1 s)
  have inner: "(\<Union>t \<in> {t \<in> set (ms (body_iter q) s). length t < length s}.
        set (ms (Seq (Star (body_iter q)) (Chr q)) t)) =
      (if \<exists>t \<in> set (ms (body_iter q) s). length t < length s
       then set_option (string_body q s) else {})"
    using 1 iter_body [OF assms] by auto
  have step: "set (ms (Seq (Star (body_iter q)) (Chr q)) s) =
      (if \<exists>t \<in> set (ms (body_iter q) s). length t < length s
       then set_option (string_body q s) else {}) \<union> set (ms (Chr q) s)"
    by (subst ms_body_close, subst inner) (rule refl)
  show ?case
  proof (cases s)
    case Nil
    show ?thesis unfolding step using Nil by simp
  next
    case (Cons c cs)
    show ?thesis
    proof (cases "c = q")
      case True
      show ?thesis unfolding step using True Cons by simp
    next
      case False
      show ?thesis
      proof (cases "string_body q s")
        case None
        show ?thesis unfolding step using False None Cons by simp
      next
        case (Some r)
        with iter_progress [OF assms False, of cs] Cons
        have "\<exists>t \<in> set (ms (body_iter q) s). length t < length s" by simp
        then show ?thesis unfolding step using False Some Cons by simp
      qed
    qed
  qed
qed

lemma firstOf_set: "set xs = set_option v \<Longrightarrow> firstOf xs = v"
  by (cases xs; cases v) (auto simp: firstOf_def)

lemma rx_match_string_rx:
  assumes "q \<noteq> BS"
  shows "rx_match (string_rx q) s =
     (case s of [] \<Rightarrow> None | c # cs \<Rightarrow> if c = q then string_body q cs else None)"
proof (cases s)
  case Nil
  then show ?thesis by (simp add: rx_match_def string_rx_def ms_Seq)
next
  case (Cons c cs)
  show ?thesis
  proof (cases "c = q")
    case True
    have "ms (string_rx q) s = ms (Seq (Star (body_iter q)) (Chr q)) cs"
      using True Cons by (simp add: string_rx_def body_iter_def ms_Seq)
    then show ?thesis
      using firstOf_set [OF string_body_set [OF assms, of cs]] True Cons
      by (simp add: rx_match_def)
  next
    case False
    then show ?thesis using Cons by (simp add: rx_match_def string_rx_def ms_Seq)
  qed
qed

lemma rx_match_group1:
  "rx_match group1 s = (case s of [] \<Rightarrow> None | c # cs \<Rightarrow> if c = DQ then string_body DQ cs else None)"
  using rx_match_string_rx [of DQ s] by (simp add: group1_def string_rx_def)

lemma rx_match_group2:
  "rx_match group2 s = (case s of [] \<Rightarrow> None | c # cs \<Rightarrow> if c = SQ then string_body SQ cs else None)"
  using rx_match_string_rx [of SQ s] by (simp add: group2_def string_rx_def)

lemma concat_map_concat:
  "concat (map f (concat xss)) = concat (map (\<lambda>xs. concat (map f xs)) xss)"
  by (induction xss) auto

lemma ms_Seq_LazyStar:
  "ms (Seq (LazyStar a) b) s =
     ms b s @ concat (map (ms (Seq (LazyStar a) b))
       (filter (\<lambda>t. length t < length s) (ms a s)))"
proof -
  have e: "ms (Seq (LazyStar a) b) = (\<lambda>t. concat (map (ms b) (ms (LazyStar a) t)))"
    by (rule ext) (simp add: ms_Seq)
  show ?thesis
    by (subst ms_Seq, subst ms_LazyStar) (simp add: e concat_map_concat comp_def)
qed

lemma ms_Seq_Star:
  "ms (Seq (Star a) b) s =
     concat (map (ms (Seq (Star a) b))
       (filter (\<lambda>t. length t < length s) (ms a s))) @ ms b s"
proof -
  have e: "ms (Seq (Star a) b) = (\<lambda>t. concat (map (ms b) (ms (Star a) t)))"
    by (rule ext) (simp add: ms_Seq)
  show ?thesis
    by (subst ms_Seq, subst ms_Star) (simp add: e concat_map_concat comp_def)
qed

lemma ms_Chr_Seq:
  "ms (Seq (Chr a) b) s = (case s of [] \<Rightarrow> [] | c # cs \<Rightarrow> if c = a then ms b cs else [])"
  by (simp add: ms_Seq split: list.splits)

lemma ms_opt_CR_LF:
  "ms (Seq (Opt (Chr CR)) (Chr LF)) s =
     (case s of [] \<Rightarrow> []
      | c # cs \<Rightarrow>
          if c = CR then (case cs of [] \<Rightarrow> [] | d # ds \<Rightarrow> if d = LF then [ds] else [])
          else if c = LF then [cs] else [])"
  by (simp add: ms_Seq split: list.splits)

lemma ms_comment_unit:
  "ms comment_unit s =
     (case s of [] \<Rightarrow> []
      | c # cs \<Rightarrow>
          if c = CR then (case cs of [] \<Rightarrow> [] | d # ds \<Rightarrow> if d = LF then [ds] else [])
          else [cs])"
  by (simp add: comment_unit_def ms_opt_CR_LF isLineTerminator_def split: list.splits)

lemma ms_star_slash:
  "ms (Seq (Chr CHR ''*'') (Chr CHR ''/'')) s =
     (if take 2 s = ''*/'' then [drop 2 s] else [])"
  by (cases s; cases "tl s") (auto simp: ms_Chr_Seq)

lemma block_body_first:
  "firstOf (ms (Seq (LazyStar comment_unit) (Seq (Chr CHR ''*'') (Chr CHR ''/''))) s) = block_body s"
proof (induction s rule: block_body.induct)
  case 1
  show ?case by (subst ms_Seq_LazyStar) (simp add: ms_comment_unit ms_star_slash)
next
  case (2 c cs)
  show ?case
  proof (cases "c = CHR ''*'' \<and> take 1 cs = ''/''")
    case True
    then have "take 2 (c # cs) = ''*/''" by (cases cs) auto
    then show ?thesis using True
      by (subst ms_Seq_LazyStar) (simp add: ms_star_slash)
  next
    case False
    then have nt: "take 2 (c # cs) \<noteq> ''*/''" by (cases cs) auto
    show ?thesis
    proof (cases "c = CR")
      case True
      show ?thesis
      proof (cases cs)
        case Nil
        then show ?thesis using True False nt
          by (subst ms_Seq_LazyStar) (simp add: ms_star_slash ms_comment_unit)
      next
        case (Cons d ds)
        show ?thesis
        proof (cases "d = LF")
          case dl: True
          from 2(1) [OF False True Cons dl] show ?thesis using True False nt Cons dl
            by (subst ms_Seq_LazyStar) (simp add: ms_star_slash ms_comment_unit)
        next
          case dl: False
          then show ?thesis using True False nt Cons
            by (subst ms_Seq_LazyStar) (simp add: ms_star_slash ms_comment_unit)
        qed
      qed
    next
      case nc: False
      from 2(2) [OF False nc] show ?thesis using False nt nc
        by (subst ms_Seq_LazyStar) (auto simp: ms_star_slash ms_comment_unit)
    qed
  qed
qed

lemma rx_match_group3:
  "rx_match group3 s =
     (case s of [] \<Rightarrow> None
      | c # cs \<Rightarrow>
         (case cs of [] \<Rightarrow> None
          | d # r \<Rightarrow> if c = CHR ''/'' \<and> d = CHR ''*'' then block_body r else None))"
proof -
  have "ms group3 s =
     (case s of [] \<Rightarrow> []
      | c # cs \<Rightarrow>
         (case cs of [] \<Rightarrow> []
          | d # r \<Rightarrow> if c = CHR ''/'' \<and> d = CHR ''*''
              then ms (Seq (LazyStar comment_unit) (Seq (Chr CHR ''*'') (Chr CHR ''/''))) r
              else []))"
    by (simp add: group3_def comment_unit_def ms_Chr_Seq split: list.splits)
  then show ?thesis
    by (simp add: rx_match_def block_body_first split: list.splits)
qed

lemma ms_line_end:
  "ms line_end s =
     (case s of [] \<Rightarrow> [[]]
      | c # cs \<Rightarrow>
          if c = CR then (case cs of [] \<Rightarrow> [] | d # ds \<Rightarrow> if d = LF then [ds] else [])
          else if c = LF then [cs] else [])"
  by (simp add: line_end_def ms_opt_CR_LF split: list.splits)

lemma ms_line_body:
  "ms (Seq (LazyStar Dot) line_end) s = (case line_body s of None \<Rightarrow> [] | Some r \<Rightarrow> [r])"
proof (induction s)
  case Nil
  show ?case by (subst ms_Seq_LazyStar) (simp add: ms_line_end)
next
  case (Cons c cs)
  show ?case
    using Cons
    by (subst ms_Seq_LazyStar) (auto simp: ms_line_end isLineTerminator_def split: list.splits)
qed

lemma slashes_line_body:
  "firstOf (ms (Seq (Star (Chr CHR ''/'')) (Seq (LazyStar Dot) line_end)) s) = line_body s"
proof (induction s)
  case Nil
  show ?case by (subst ms_Seq_Star) (simp add: ms_line_body)
next
  case (Cons c cs)
  show ?case
    using Cons by (subst ms_Seq_Star) (auto simp: ms_line_body split: option.splits)
qed

lemma ms_Seq_assoc: "ms (Seq (Seq a b) c) s = ms (Seq a (Seq b c)) s"
proof -
  have e: "ms (Seq b c) = (\<lambda>t. concat (map (ms c) (ms b t)))"
    by (rule ext) (simp add: ms_Seq)
  show ?thesis by (simp add: ms_Seq e concat_map_concat comp_def)
qed

lemma rx_match_group4:
  "rx_match group4 s =
     (case s of [] \<Rightarrow> None
      | c # cs \<Rightarrow>
         (case cs of [] \<Rightarrow> None
          | d # r \<Rightarrow> if c = CHR ''/'' \<and> d = CHR ''/'' then line_body r else None))"
proof -
  have "ms group4 s =
     (case s of [] \<Rightarrow> []
      | c # cs \<Rightarrow>
         (case cs of [] \<Rightarrow> []
          | d # r \<Rightarrow> if c = CHR ''/'' \<and> d = CHR ''/''
              then ms (Seq (Star (Chr CHR ''/'')) (Seq (LazyStar Dot) line_end)) r
              else []))"
    by (simp add: group4_def AtLeast2_def line_end_def ms_Seq_assoc ms_Chr_Seq split: list.splits)
  then show ?thesis
    by (simp add: rx_match_def slashes_line_body split: list.splits)
qed

section \<open>The stripper as a scan\<close>

declare stripComments.simps [simp del]

lemma string_body_length: "string_body q cs = Some r \<Longrightarrow> length r < length cs"
proof (induction q cs rule: string_body.induct)
  case (1 q)
  then show ?case by simp
next
  case (2 q c cs)
  then show ?case by (fastforce split: if_splits list.splits)
qed

lemma block_body_length: "block_body cs = Some r \<Longrightarrow> length r < length cs"
proof (induction cs rule: block_body.induct)
  case 1
  then show ?case by simp
next
  case (2 c cs)
  then show ?case by (cases cs) (fastforce split: if_splits list.splits)+
qed

lemma line_body_length: "line_body cs = Some r \<Longrightarrow> length r \<le> length cs"
proof (induction cs)
  case Nil
  then show ?case by simp
next
  case (Cons c cs)
  then show ?case by (fastforce split: if_splits list.splits)
qed

lemma line_body_shape:
  "line_body b = Some r \<Longrightarrow>
     \<exists>body. b = body @ line_newline b @ r \<and> (\<forall>c \<in> set body. c \<noteq> LF \<and> c \<noteq> CR) \<and>
       (line_newline b = [] \<or> line_newline b = [LF] \<or> line_newline b = [CR, LF])"
proof (induction b)
  case Nil
  then show ?case by simp
next
  case (Cons c cs)
  show ?case
  proof (cases "c = LF \<or> c = CR")
    case True
    then show ?thesis using Cons.prems
      by (intro exI [of _ "[]"]) (auto split: if_splits list.splits)
  next
    case False
    with Cons obtain body where "cs = body @ line_newline cs @ r"
      and "\<forall>c \<in> set body. c \<noteq> LF \<and> c \<noteq> CR"
      and "line_newline cs = [] \<or> line_newline cs = [LF] \<or> line_newline cs = [CR, LF]"
      by auto
    then show ?thesis using False
      by (intro exI [of _ "c # body"]) auto
  qed
qed

lemma matched_append: "matched (p @ r) r = p"
  by (simp add: matched_def)

lemma replacer_line:
  assumes "line_body b = Some r"
  shows "replacer w \<lparr>m1 = None, m2 = None, m3 = None,
           m4 = Some (matched (CHR ''/'' # CHR ''/'' # b) r), rest = r\<rparr> = line_newline b"
proof -
  from line_body_shape [OF assms] obtain body where b: "b = body @ line_newline b @ r"
    and body: "\<forall>c \<in> set body. c \<noteq> LF \<and> c \<noteq> CR"
    and nl: "line_newline b = [] \<or> line_newline b = [LF] \<or> line_newline b = [CR, LF]"
    by blast
  define pre where "pre = CHR ''/'' # CHR ''/'' # body"
  have pre: "pre \<noteq> []" "last pre \<noteq> LF" "last pre \<noteq> CR"
    using body by (auto simp: pre_def)
  have "CHR ''/'' # CHR ''/'' # b = (pre @ line_newline b) @ r"
    using b by (simp add: pre_def)
  then have m: "matched (CHR ''/'' # CHR ''/'' # b) r = pre @ line_newline b"
    using matched_append by metis
  have len: "length pre \<ge> 2" by (simp add: pre_def)
  from nl show ?thesis
  proof (elim disjE)
    assume e: "line_newline b = []"
    have "pre ! (length pre - 1) \<noteq> LF" using pre by (simp add: last_conv_nth)
    then show ?thesis
      by (simp add: replacer_def truthy_str_def m e Let_def pre(1))
  next
    assume e: "line_newline b = [LF]"
    have "(pre @ [LF]) ! (length pre - 1) \<noteq> CR"
      using pre by (simp add: last_conv_nth nth_append)
    then show ?thesis
      using len by (simp add: replacer_def truthy_str_def m e Let_def nth_append)
  next
    assume e: "line_newline b = [CR, LF]"
    show ?thesis
      using len pre(1) by (simp add: replacer_def truthy_str_def m e Let_def nth_append)
  qed
qed

lemma stripComments_Nil: "stripComments [] = []"
  by (simp add: stripComments.simps regexp_exec_def rx_match_group1 rx_match_group2
      rx_match_group3 rx_match_group4)

lemma group_heads:
  "c \<noteq> DQ \<Longrightarrow> rx_match group1 (c # cs) = None"
  "c \<noteq> SQ \<Longrightarrow> rx_match group2 (c # cs) = None"
  "c \<noteq> CHR ''/'' \<Longrightarrow> rx_match group3 (c # cs) = None"
  "c \<noteq> CHR ''/'' \<Longrightarrow> rx_match group4 (c # cs) = None"
  by (simp_all add: rx_match_group1 rx_match_group2 rx_match_group3 rx_match_group4
      split: list.splits)

lemma stripComments_DQ:
  "stripComments (DQ # cs) =
     (case string_body DQ cs of
        Some r \<Rightarrow> matched (DQ # cs) r @ stripComments r
      | None \<Rightarrow> DQ # stripComments cs)"
proof (cases "string_body DQ cs")
  case None
  then show ?thesis
    by (subst stripComments.simps) (simp add: regexp_exec_def rx_match_group1 group_heads)
next
  case (Some r)
  from string_body_length [OF Some] have "length r < Suc (length cs)" by simp
  then show ?thesis using Some
    by (subst stripComments.simps)
      (simp add: regexp_exec_def rx_match_group1 replacer_def truthy_str_def)
qed

lemma stripComments_SQ:
  "stripComments (SQ # cs) =
     (case string_body SQ cs of
        Some r \<Rightarrow> matched (SQ # cs) r @ stripComments r
      | None \<Rightarrow> SQ # stripComments cs)"
proof (cases "string_body SQ cs")
  case None
  then show ?thesis
    by (subst stripComments.simps) (simp add: regexp_exec_def rx_match_group2 group_heads)
next
  case (Some r)
  from string_body_length [OF Some] have "length r < Suc (length cs)" by simp
  then show ?thesis using Some
    by (subst stripComments.simps)
      (simp add: regexp_exec_def rx_match_group2 group_heads replacer_def truthy_str_def)
qed

lemma stripComments_block:
  "stripComments (CHR ''/'' # CHR ''*'' # b) =
     (case block_body b of
        Some r \<Rightarrow> stripComments r
      | None \<Rightarrow> CHR ''/'' # stripComments (CHR ''*'' # b))"
proof (cases "block_body b")
  case None
  then show ?thesis
    by (subst stripComments.simps)
      (simp add: regexp_exec_def group_heads rx_match_group3 rx_match_group4)
next
  case (Some r)
  from block_body_length [OF Some] have "length r < length b" .
  then show ?thesis using Some
    by (subst stripComments.simps)
      (simp add: regexp_exec_def group_heads rx_match_group3 replacer_def truthy_str_def
        matched_def)
qed

lemma stripComments_line:
  "stripComments (CHR ''/'' # CHR ''/'' # b) =
     (case line_body b of
        Some r \<Rightarrow> line_newline b @ stripComments r
      | None \<Rightarrow> CHR ''/'' # stripComments (CHR ''/'' # b))"
proof (cases "line_body b")
  case None
  then show ?thesis
    by (subst stripComments.simps)
      (simp add: regexp_exec_def group_heads rx_match_group3 rx_match_group4)
next
  case (Some r)
  from line_body_length [OF Some] have "length r < Suc (Suc (length b))" by simp
  then show ?thesis using Some replacer_line [OF Some]
    by (subst stripComments.simps)
      (simp add: regexp_exec_def group_heads rx_match_group3 rx_match_group4)
qed

lemma stripComments_slash:
  "d \<noteq> CHR ''*'' \<Longrightarrow> d \<noteq> CHR ''/'' \<Longrightarrow>
     stripComments (CHR ''/'' # d # cs) = CHR ''/'' # stripComments (d # cs)"
  by (subst stripComments.simps)
    (simp add: regexp_exec_def group_heads rx_match_group3 rx_match_group4)

lemma stripComments_slash_end: "stripComments [CHR ''/''] = [CHR ''/'']"
  by (subst stripComments.simps)
    (simp add: regexp_exec_def group_heads rx_match_group3 rx_match_group4 stripComments_Nil)

lemma stripComments_other:
  "c \<noteq> DQ \<Longrightarrow> c \<noteq> SQ \<Longrightarrow> c \<noteq> CHR ''/'' \<Longrightarrow> stripComments (c # cs) = c # stripComments cs"
  by (subst stripComments.simps) (simp add: regexp_exec_def group_heads)

text \<open>The stripper as one deterministic scan.\<close>

lemma stripComments_scan:
  "stripComments (c # cs) =
     (if c = DQ \<or> c = SQ then
        (case string_body c cs of
           Some r \<Rightarrow> matched (c # cs) r @ stripComments r
         | None \<Rightarrow> c # stripComments cs)
      else if c = CHR ''/'' then
        (case cs of
           [] \<Rightarrow> [c]
         | d # b \<Rightarrow>
             if d = CHR ''*'' then
               (case block_body b of
                  Some r \<Rightarrow> stripComments r
                | None \<Rightarrow> c # stripComments cs)
             else if d = CHR ''/'' then
               (case line_body b of
                  Some r \<Rightarrow> line_newline b @ stripComments r
                | None \<Rightarrow> c # stripComments cs)
             else c # stripComments cs)
      else c # stripComments cs)"
proof -
  consider "c = DQ" | "c = SQ" | "c = CHR ''/''" "cs = []"
    | b where "c = CHR ''/''" "cs = CHR ''*'' # b"
    | b where "c = CHR ''/''" "cs = CHR ''/'' # b"
    | d b where "c = CHR ''/''" "cs = d # b" "d \<noteq> CHR ''*''" "d \<noteq> CHR ''/''"
    | "c \<noteq> DQ" "c \<noteq> SQ" "c \<noteq> CHR ''/''"
    by (cases cs) auto
  then show ?thesis
  proof cases
    case 1
    show ?thesis unfolding 1 by (simp add: stripComments_DQ)
  next
    case 2
    show ?thesis unfolding 2 by (simp add: stripComments_SQ)
  next
    case 3
    then show ?thesis by (simp add: stripComments_slash_end)
  next
    case 4
    show ?thesis unfolding 4 by (simp add: stripComments_block)
  next
    case 5
    show ?thesis unfolding 5 by (simp add: stripComments_line)
  next
    case 6
    show ?thesis unfolding 6(1,2) using 6(3-) by (simp add: stripComments_slash)
  next
    case 7
    then show ?thesis by (simp add: stripComments_other)
  qed
qed

text \<open>
  Comments whose text holds no carriage return, or none that stands alone, are removed as
  the specification says: a block comment entirely, a line comment up to its line end.
\<close>

lemma block_body_closed:
  "CR \<notin> set body \<Longrightarrow> no_block_end body \<Longrightarrow> block_body (body @ ''*/'' @ r) = Some r"
  by (induction body rule: no_block_end.induct) auto

lemma line_body_closed:
  assumes "\<forall>c \<in> set body. \<not> isLineTerminator c"
  shows "line_body (body @ LF # r) = Some r" "line_newline (body @ LF # r) = [LF]"
    "line_body (body @ CR # LF # r) = Some r" "line_newline (body @ CR # LF # r) = [CR, LF]"
    "line_body body = Some []" "line_newline body = []"
  using assms by (induction body) (auto simp: isLineTerminator_def)

lemma comments_removed:
  "CR \<notin> set body \<Longrightarrow> no_block_end body \<Longrightarrow>
     stripComments (''/*'' @ body @ ''*/'' @ r) = stripComments r"
  "\<forall>c \<in> set body. \<not> isLineTerminator c \<Longrightarrow>
     stripComments (''//'' @ body @ LF # r) = LF # stripComments r"
  "\<forall>c \<in> set body. \<not> isLineTerminator c \<Longrightarrow>
     stripComments (''//'' @ body @ CR # LF # r) = CR # LF # stripComments r"
  "\<forall>c \<in> set body. \<not> isLineTerminator c \<Longrightarrow> stripComments (''//'' @ body) = []"
  using block_body_closed [of body r]
  by (simp_all add: stripComments_block stripComments_line line_body_closed stripComments_Nil)

section \<open>The stripper and the reference stripper\<close>

lemma reference_string:
  "wellformed b (Str q) cs \<Longrightarrow>
     \<exists>r. string_body q cs = Some r \<and> wellformed b Code r \<and>
       reference_strip (Str q) cs = take (length cs - length r) cs @ reference_strip Code r"
proof (induction q cs rule: string_body.induct)
  case (1 q)
  then show ?case by simp
next
  case (2 q c cs)
  show ?case
  proof (cases "c = q")
    case True
    then show ?thesis using "2.prems" by simp
  next
    case nq: False
    show ?thesis
    proof (cases "c = BS")
      case True
      with nq "2.prems" obtain d ds where cs: "cs = d # ds" and d: "\<not> isLineTerminator d"
        and wf: "wellformed b (Str q) ds"
        by (cases cs) auto
      from "2.IH"(1) [OF nq True cs d wf] obtain r where r: "string_body q ds = Some r"
        "wellformed b Code r"
        "reference_strip (Str q) ds = take (length ds - length r) ds @ reference_strip Code r"
        by blast
      from string_body_length [OF r(1)] have "length r < length ds" .
      then have "Suc (Suc (length ds)) - length r = Suc (Suc (length ds - length r))" by simp
      then show ?thesis using nq True cs d r by simp
    next
      case False
      with nq "2.prems" have wf: "wellformed b (Str q) cs" by simp
      from "2.IH"(2) [OF nq False wf] obtain r where r: "string_body q cs = Some r"
        "wellformed b Code r"
        "reference_strip (Str q) cs = take (length cs - length r) cs @ reference_strip Code r"
        by blast
      from string_body_length [OF r(1)] have "length r < length cs" .
      then have "Suc (length cs) - length r = Suc (length cs - length r)" by simp
      then show ?thesis using nq False r by simp
    qed
  qed
qed

lemma reference_block:
  "wellformed True Block b \<Longrightarrow>
     \<exists>r. block_body b = Some r \<and> wellformed True Code r \<and>
       reference_strip Block b = reference_strip Code r"
proof (induction b rule: block_body.induct)
  case 1
  then show ?case by simp
next
  case (2 c cs)
  show ?case
  proof (cases "c = CHR ''*'' \<and> take 1 cs = ''/''")
    case True
    then show ?thesis using "2.prems" by simp
  next
    case nend: False
    show ?thesis
    proof (cases "c = CR")
      case True
      with nend "2.prems" obtain ds where cs: "cs = LF # ds" and wf: "wellformed True Block ds"
        by (cases cs) (auto split: if_splits)
      from "2.IH"(1) [OF nend True cs _ wf] obtain r where "block_body ds = Some r"
        "wellformed True Code r" "reference_strip Block ds = reference_strip Code r"
        by auto
      then show ?thesis using nend True cs by simp
    next
      case False
      with nend "2.prems" have wf: "wellformed True Block cs" by (auto split: if_splits)
      from "2.IH"(2) [OF nend False wf] obtain r where "block_body cs = Some r"
        "wellformed True Code r" "reference_strip Block cs = reference_strip Code r"
        by auto
      then show ?thesis using nend False by auto
    qed
  qed
qed

lemma reference_line:
  "wellformed True Line b \<Longrightarrow>
     \<exists>r. line_body b = Some r \<and> wellformed True Code r \<and>
       reference_strip Line b = line_newline b @ reference_strip Code r"
proof (induction b)
  case Nil
  then show ?case by simp
next
  case (Cons c cs)
  show ?case
  proof (cases "c = LF")
    case True
    then show ?thesis using Cons.prems by simp
  next
    case nl: False
    show ?thesis
    proof (cases "c = CR")
      case True
      with nl Cons.prems obtain ds where "cs = LF # ds" "wellformed True Code ds"
        by (cases cs) (auto split: if_splits)
      then show ?thesis using True by simp
    next
      case False
      with nl Cons.prems have "wellformed True Line cs" by simp
      from Cons.IH [OF this] show ?thesis using nl False by auto
    qed
  qed
qed

text \<open>
  On a well-formed text in which every carriage return inside a comment is followed by a
  line feed, the stripper of the source and the reference stripper agree.
\<close>

lemma stripComments_refines_reference:
  "wellformed True Code s \<Longrightarrow> stripComments s = reference_strip Code s"
proof (induction s rule: length_induct)
  case (1 s)
  show ?case
  proof (cases s)
    case Nil
    then show ?thesis by (simp add: stripComments_Nil)
  next
    case (Cons c cs)
    consider "c = DQ \<or> c = SQ" | "c = CHR ''/''" "cs = []"
      | b where "c = CHR ''/''" "cs = CHR ''*'' # b"
      | b where "c = CHR ''/''" "cs = CHR ''/'' # b"
      | d b where "c = CHR ''/''" "cs = d # b" "d \<noteq> CHR ''*''" "d \<noteq> CHR ''/''"
      | "c \<noteq> DQ" "c \<noteq> SQ" "c \<noteq> CHR ''/''"
      by (cases cs) auto
    then show ?thesis
    proof cases
      case 1
      with "1.prems" Cons have "wellformed True (Str c) cs" by auto
      from reference_string [OF this] obtain r where r: "string_body c cs = Some r"
        "wellformed True Code r"
        "reference_strip (Str c) cs = take (length cs - length r) cs @ reference_strip Code r"
        by blast
      from string_body_length [OF r(1)] have len: "length r < length cs" .
      then have "length r < length s" using Cons by simp
      with "1.IH" r(2) have ih: "stripComments r = reference_strip Code r" by blast
      from len have "Suc (length cs) - length r = Suc (length cs - length r)" by simp
      then have m: "matched (c # cs) r = c # take (length cs - length r) cs"
        by (simp add: matched_def)
      have "stripComments (c # cs) = matched (c # cs) r @ stripComments r"
        using 1 r(1) by (subst stripComments_scan) auto
      moreover have "reference_strip Code (c # cs) = c # reference_strip (Str c) cs"
        using 1 by auto
      ultimately show ?thesis using Cons m ih r(3) by simp
    next
      case 2
      then show ?thesis using Cons by (simp add: stripComments_scan)
    next
      case (3 b)
      with "1.prems" Cons have "wellformed True Block b" by simp
      from reference_block [OF this] obtain r where r: "block_body b = Some r"
        "wellformed True Code r" "reference_strip Block b = reference_strip Code r"
        by blast
      from block_body_length [OF r(1)] have "length r < length s" using Cons 3 by simp
      with "1.IH" r(2) have ih: "stripComments r = reference_strip Code r" by blast
      show ?thesis using Cons 3 r ih by (simp add: stripComments_block)
    next
      case (4 b)
      with "1.prems" Cons have "wellformed True Line b" by simp
      from reference_line [OF this] obtain r where r: "line_body b = Some r"
        "wellformed True Code r" "reference_strip Line b = line_newline b @ reference_strip Code r"
        by blast
      from line_body_length [OF r(1)] have "length r < length s" using Cons 4 by simp
      with "1.IH" r(2) have ih: "stripComments r = reference_strip Code r" by blast
      show ?thesis using Cons 4 r ih by (simp add: stripComments_line)
    next
      case (5 d b)
      with "1.prems" Cons have "wellformed True Code cs" by simp
      with "1.IH" Cons have "stripComments cs = reference_strip Code cs" by simp
      then show ?thesis using Cons 5 by (simp add: stripComments_slash)
    next
      case 6
      with "1.prems" Cons have "wellformed True Code cs" by simp
      with "1.IH" Cons have "stripComments cs = reference_strip Code cs" by simp
      then show ?thesis using Cons 6 by (simp add: stripComments_other)
    qed
  qed
qed

lemma stripComments_default:
  "stripComments defaultFlagsConfigRaw = strippedDefaultFlagsConfig"
  by (simp add: defaultFlagsConfigRaw_def strippedDefaultFlagsConfig_def stripComments_scan
      stripComments_Nil matched_def isLineTerminator_def eval_nat_numeral)

section \<open>Facts about the startup script\<close>

lemma indexOf_nonneg: "indexOf xs x \<ge> 0 \<longleftrightarrow> x \<in> set xs"
  by (induction xs) (auto simp: Let_def)

lemma indexOf_ge: "indexOf xs x \<ge> -1"
  by (induction xs) (auto simp: Let_def)

lemma indexOf_pos: "indexOf xs x \<noteq> 0 \<Longrightarrow> indexOf xs x > 0 \<longleftrightarrow> x \<in> set xs"
  using indexOf_nonneg [of xs x] by auto

lemma map_of_set_prop: "map_of (set_prop kvs k v) = (map_of kvs)(k \<mapsto> v)"
  by (induction kvs) (auto simp: fun_upd_twist)

lemma toLowerCase_Nil [simp]: "toLowerCase l = [] \<longleftrightarrow> l = []"
  by (simp add: toLowerCase_def)

lemma lp_fields [simp]:
  "fst (lp_getNLSConfiguration C G l st) =
     getNLSConfiguration C (commit G) (userDataPath G) (metaDataFile G) l"
  "snd (lp_getNLSConfiguration C G l st) = st\<lparr>nls_requests := nls_requests st @ [l]\<rparr>"
  by (simp_all add: lp_getNLSConfiguration_def)

lemma getUserDefinedLocale_state:
  "nlsConfigurationPromise (snd (getUserDefinedLocale C G st)) = nlsConfigurationPromise st"
  "console (snd (getUserDefinedLocale C G st)) = console st"
  "bundle_loads (snd (getUserDefinedLocale C G st)) = bundle_loads st"
  "process_env (snd (getUserDefinedLocale C G st)) = process_env st"
  by (auto simp: getUserDefinedLocale_def Let_def split: argval.splits sum.splits)








lemma loadFlagsConfig_Absent:
  assumes "entries (disk w) (flagsConfigPath C G) = Absent"
  shows "loadFlagsConfig C G w =
     (default_flagsConfig,
      case write_fault (disk w) (flagsConfigPath C G) of
        Some e \<Rightarrow> w\<lparr>flags_console := flags_console w @ [ConsoleError e]\<rparr>
      | None \<Rightarrow> w\<lparr>disk := (disk w)\<lparr>entries :=
                 (entries (disk w))(flagsConfigPath C G := File defaultFlagsConfigRaw)\<rparr>\<rparr>)"
  using assms
  by (simp add: loadFlagsConfig_def flagsConfigPath_def readFileSync_def flags_catch_def
      writeFileSync_def split: option.splits)

lemma loadFlagsConfig_Unreadable:
  assumes "entries (disk w) (flagsConfigPath C G) = Unreadable f"
  shows "loadFlagsConfig C G w =
     (default_flagsConfig, w\<lparr>flags_console := flags_console w @ [ConsoleWarn (Fault f)]\<rparr>)"
  using assms
  by (simp add: loadFlagsConfig_def flagsConfigPath_def readFileSync_def flags_catch_def)

lemma loadFlagsConfig_File:
  assumes "entries (disk w) (flagsConfigPath C G) = File content"
  shows "loadFlagsConfig C G w =
     (case JSON_parse C (stripComments content) of
        None \<Rightarrow> (default_flagsConfig,
                  w\<lparr>flags_console := flags_console w @ [ConsoleWarn SyntaxError]\<rparr>)
      | Some flagsConfig \<Rightarrow> (flagsConfig, w))"
  using assms
  by (simp add: loadFlagsConfig_def flagsConfigPath_def readFileSync_def flags_catch_def
      split: option.splits)

lemma Object_keys_throws: "Object_keys j = Inl e \<longleftrightarrow> j = JNull \<and> e = TypeError"
  by (cases j) auto

lemma configureCommandlineSwitches_thrown:
  "fst (configureCommandlineSwitches C G w a) =
     (if fst (loadFlagsConfig C G w) = JNull then Some TypeError else None)"
proof (cases "Object_keys (fst (loadFlagsConfig C G w))")
  case (Inl e)
  then show ?thesis using Object_keys_throws [of "fst (loadFlagsConfig C G w)" e]
    by (simp add: configureCommandlineSwitches_def split_beta)
next
  case (Inr ks)
  then have "fst (loadFlagsConfig C G w) \<noteq> JNull" by auto
  then show ?thesis using Inr
    by (simp add: configureCommandlineSwitches_def split_beta Let_def)
qed

lemma main_run_ready:
  assumes "fst (loadFlagsConfig C G w) \<noteq> JNull"
  shows "thrown (main_run C G st w a) = None"
    and "final_state (main_run C G st w a) =
      onReady C G (NodeCachedDir_compute C G (process_env st)) (fst (getUserDefinedLocale C G st))
        (userDefinedLocale_then C G (fst (getUserDefinedLocale C G st))
           (snd (getUserDefinedLocale C G st)))"
proof -
  obtain e w' a' where c: "configureCommandlineSwitches C G w a = (e, w', a')"
    by (cases "configureCommandlineSwitches C G w a")
  with configureCommandlineSwitches_thrown [of C G w a] assms have e: "e = None" by simp
  show "thrown (main_run C G st w a) = None"
    by (simp add: main_run_def split_beta c e Let_def)
  show "final_state (main_run C G st w a) =
      onReady C G (NodeCachedDir_compute C G (process_env st)) (fst (getUserDefinedLocale C G st))
        (userDefinedLocale_then C G (fst (getUserDefinedLocale C G st))
           (snd (getUserDefinedLocale C G st)))"
    by (simp add: main_run_def split_beta c e Let_def getUserDefinedLocale_state)
qed

lemma main_run_thrown:
  assumes "fst (loadFlagsConfig C G w) = JNull"
  shows "thrown (main_run C G st w a) = Some TypeError"
    and "bundle_loads (final_state (main_run C G st w a)) = bundle_loads st"
    and "console (final_state (main_run C G st w a)) = console st"
proof -
  obtain e w' a' where c: "configureCommandlineSwitches C G w a = (e, w', a')"
    by (cases "configureCommandlineSwitches C G w a")
  with configureCommandlineSwitches_thrown [of C G w a] assms have e: "e = Some TypeError" by simp
  show "thrown (main_run C G st w a) = Some TypeError"
    and "bundle_loads (final_state (main_run C G st w a)) = bundle_loads st"
    and "console (final_state (main_run C G st w a)) = console st"
    by (simp_all add: main_run_def split_beta c e Let_def getUserDefinedLocale_state)
qed

lemma onReady_rejected:
  "onReady C G d (Inl e) s = console_error e s"
  "fst (resolveNlsConfiguration C G l s) = Inl e \<Longrightarrow>
     onReady C G d (Inr l) s = console_error e (snd (resolveNlsConfiguration C G l s))"
  "fst (resolveNlsConfiguration C G l s) = Inr nlsConfig \<Longrightarrow>
     onReady C G d (Inr l) s =
       startup C (ensureExists C d) nlsConfig (snd (resolveNlsConfiguration C G l s))"
  by (simp_all add: onReady_def split_beta Let_def split: sum.splits prod.splits)

lemma startup_fields:
  "nls_requests (startup C d cfg st) = nls_requests st"
  "locale_queries (startup C d cfg st) = locale_queries st"
  "files_read (startup C d cfg st) = files_read st"
  "process_env (startup C d cfg st) ''VSCODE_NLS_CONFIG'' =
     Some (JSON_stringify C (JObject (set_prop cfg ''_languagePackSupport'' (JBool True))))"
  by (simp_all add: startup_def Let_def)

text \<open>
  A flags file that holds \<open>null\<close>: \<open>JSON.parse\<close> returns \<open>null\<close>, \<open>Object.keys\<close> throws, and
  the module body ends before the listener for \<open>ready\<close> is registered. The main bundle is
  not loaded and nothing is logged, although no promise rejects.
\<close>

lemma main_run_flags_null:
  "thrown (main_run
      (sample_collaborators (Inl ENOENT) [(''null'', JNull)] sample_provider ''DE-AT'' (Inr ()))
      (sample_globals AUndefined) (initial_state (\<lambda>_. None)) (sample_disk (File ''null''))
      sample_app) = Some TypeError \<and>
   bundle_loads (final_state (main_run
      (sample_collaborators (Inl ENOENT) [(''null'', JNull)] sample_provider ''DE-AT'' (Inr ()))
      (sample_globals AUndefined) (initial_state (\<lambda>_. None)) (sample_disk (File ''null''))
      sample_app)) = 0 \<and>
   console (final_state (main_run
      (sample_collaborators (Inl ENOENT) [(''null'', JNull)] sample_provider ''DE-AT'' (Inr ()))
      (sample_globals AUndefined) (initial_state (\<lambda>_. None)) (sample_disk (File ''null''))
      sample_app)) = [] \<and>
   flags_console (final_world (main_run
      (sample_collaborators (Inl ENOENT) [(''null'', JNull)] sample_provider ''DE-AT'' (Inr ()))
      (sample_globals AUndefined) (initial_state (\<lambda>_. None)) (sample_disk (File ''null''))
      sample_app)) = []"
proof -
  let ?C = "sample_collaborators (Inl ENOENT) [(''null'', JNull)] sample_provider ''DE-AT'' (Inr ())"
  have n: "loadFlagsConfig ?C (sample_globals AUndefined) (sample_disk (File ''null'')) =
      (JNull, sample_disk (File ''null''))"
    by (simp add: loadFlagsConfig_def readFileSync_def sample_disk_def sample_collaborators_def
        sample_globals_def stripComments_scan stripComments_Nil)
  then have n': "fst (loadFlagsConfig ?C (sample_globals AUndefined) (sample_disk (File ''null''))) =
      JNull" by simp
  have w: "final_world (main_run ?C (sample_globals AUndefined) (initial_state (\<lambda>_. None))
      (sample_disk (File ''null'')) sample_app) = sample_disk (File ''null'')"
    by (simp add: main_run_def configureCommandlineSwitches_def n split_beta)
  from main_run_thrown [OF n'] w show ?thesis by (simp add: initial_state_def sample_disk_def)
qed

section \<open>Claims\<close>

subsection \<open>C1\<close>




subsection \<open>C2\<close>

text \<open>
  C2, as amended. Only the configuration of the user-defined locale is memoised, in
  \<open>nlsConfigurationPromise\<close>. While the variable is unset, the first request for a non-empty
  locale \<open>l\<close>, by \<open>resolveNlsConfiguration\<close> or by the callback at the top of the module,
  stores the outcome of \<open>lp.getNLSConfiguration\<close> for \<open>l\<close> there; when that outcome is a
  configuration, every later call of \<open>resolveNlsConfiguration\<close>, with any locale, returns it
  and leaves the state as it is: no provider request, no platform query. Once the variable
  is set no call changes it. The platform step is not memoised: a first call without
  locale sets the variable to a promise of \<open>undefined\<close> and asks the platform, and a second
  call asks the platform again, and the provider again when the platform locale is
  non-empty.
\<close>

theorem nlsConfigurationPromise_memoized:
  "(nlsConfigurationPromise st = None \<and> l \<noteq> [] \<longrightarrow>
      nlsConfigurationPromise (snd (resolveNlsConfiguration C G (Some l) st)) =
        Some (getNLSConfiguration C (commit G) (userDataPath G) (metaDataFile G) l) \<and>
      userDefinedLocale_then C G (Inr (Some l)) st =
        st\<lparr>nlsConfigurationPromise :=
              Some (getNLSConfiguration C (commit G) (userDataPath G) (metaDataFile G) l),
           nls_requests := nls_requests st @ [l]\<rparr>) \<and>
   (nlsConfigurationPromise st = None \<and> l \<noteq> [] \<and>
    getNLSConfiguration C (commit G) (userDataPath G) (metaDataFile G) l =
      Inr (Some nlsConfiguration) \<longrightarrow>
      resolveNlsConfiguration C G (Some l) st =
        (Inr nlsConfiguration,
         st\<lparr>nlsConfigurationPromise := Some (Inr (Some nlsConfiguration)),
            nls_requests := nls_requests st @ [l]\<rparr>) \<and>
      resolveNlsConfiguration C G loc (snd (resolveNlsConfiguration C G (Some l) st)) =
        (Inr nlsConfiguration, snd (resolveNlsConfiguration C G (Some l) st)) \<and>
      resolveNlsConfiguration C G loc (userDefinedLocale_then C G (Inr (Some l)) st) =
        (Inr nlsConfiguration, userDefinedLocale_then C G (Inr (Some l)) st)) \<and>
   (nlsConfigurationPromise st = Some (Inr (Some nlsConfiguration)) \<longrightarrow>
      resolveNlsConfiguration C G loc st = (Inr nlsConfiguration, st)) \<and>
   (nlsConfigurationPromise st = Some p \<longrightarrow>
      nlsConfigurationPromise (snd (resolveNlsConfiguration C G loc st)) = Some p) \<and>
   (nlsConfigurationPromise st = None \<longrightarrow>
      nlsConfigurationPromise (snd (resolveNlsConfiguration C G None st)) = Some (Inr None) \<and>
      locale_queries (snd (resolveNlsConfiguration C G None st)) = Suc (locale_queries st) \<and>
      locale_queries (snd (resolveNlsConfiguration C G loc
          (snd (resolveNlsConfiguration C G None st)))) = Suc (Suc (locale_queries st))) \<and>
   (nlsConfigurationPromise st = None \<and> getLocale C \<noteq> [] \<longrightarrow>
      nls_requests (snd (resolveNlsConfiguration C G loc
          (snd (resolveNlsConfiguration C G None st)))) =
        nls_requests st @ [toLowerCase (getLocale C), toLowerCase (getLocale C)])"
proof -
  have hit: "resolveNlsConfiguration C G loc s = (Inr nlsConfiguration, s)"
    if "nlsConfigurationPromise s = Some (Inr (Some nlsConfiguration))" for s loc
    using that by (simp add: resolveNlsConfiguration_def await_def)
  have store: "nlsConfigurationPromise (snd (resolveNlsConfiguration C G (Some l) st)) =
        Some (getNLSConfiguration C (commit G) (userDataPath G) (metaDataFile G) l) \<and>
      userDefinedLocale_then C G (Inr (Some l)) st =
        st\<lparr>nlsConfigurationPromise :=
              Some (getNLSConfiguration C (commit G) (userDataPath G) (metaDataFile G) l),
           nls_requests := nls_requests st @ [l]\<rparr>"
    if "nlsConfigurationPromise st = None" "l \<noteq> []"
    using that
    by (auto simp: resolveNlsConfiguration_def userDefinedLocale_then_def await_def Let_def
        truthy_str_def lp_getNLSConfiguration_def split: sum.splits option.splits prod.splits)
  have memo: "resolveNlsConfiguration C G (Some l) st =
        (Inr nlsConfiguration,
         st\<lparr>nlsConfigurationPromise := Some (Inr (Some nlsConfiguration)),
            nls_requests := nls_requests st @ [l]\<rparr>) \<and>
      resolveNlsConfiguration C G loc (snd (resolveNlsConfiguration C G (Some l) st)) =
        (Inr nlsConfiguration, snd (resolveNlsConfiguration C G (Some l) st)) \<and>
      resolveNlsConfiguration C G loc (userDefinedLocale_then C G (Inr (Some l)) st) =
        (Inr nlsConfiguration, userDefinedLocale_then C G (Inr (Some l)) st)"
    if fresh: "nlsConfigurationPromise st = None" and l: "l \<noteq> []"
      and pack: "getNLSConfiguration C (commit G) (userDataPath G) (metaDataFile G) l =
        Inr (Some nlsConfiguration)"
  proof -
    let ?m = "st\<lparr>nlsConfigurationPromise := Some (Inr (Some nlsConfiguration)),
                 nls_requests := nls_requests st @ [l]\<rparr>"
    have a: "resolveNlsConfiguration C G (Some l) st = (Inr nlsConfiguration, ?m)"
      using fresh l pack
      by (simp add: resolveNlsConfiguration_def await_def truthy_str_def
          lp_getNLSConfiguration_def)
    have b: "resolveNlsConfiguration C G loc (snd (resolveNlsConfiguration C G (Some l) st)) =
        (Inr nlsConfiguration, snd (resolveNlsConfiguration C G (Some l) st))"
      unfolding a by (rule hit) simp
    have c: "userDefinedLocale_then C G (Inr (Some l)) st = ?m"
      using fresh l pack
      by (simp add: userDefinedLocale_then_def truthy_str_def lp_getNLSConfiguration_def)
    have d: "resolveNlsConfiguration C G loc (userDefinedLocale_then C G (Inr (Some l)) st) =
        (Inr nlsConfiguration, userDefinedLocale_then C G (Inr (Some l)) st)"
      unfolding c by (rule hit) simp
    from a b d show ?thesis by blast
  qed
  have keep: "nlsConfigurationPromise (snd (resolveNlsConfiguration C G loc st)) = Some p"
    if "nlsConfigurationPromise st = Some p"
    using that
    by (auto simp: resolveNlsConfiguration_def await_def Let_def lp_getNLSConfiguration_def
        split: sum.splits option.splits prod.splits)
  have undef: "nlsConfigurationPromise (snd (resolveNlsConfiguration C G loc s)) = Some (Inr None) \<and>
      locale_queries (snd (resolveNlsConfiguration C G loc s)) = Suc (locale_queries s) \<and>
      (getLocale C \<noteq> [] \<longrightarrow> nls_requests (snd (resolveNlsConfiguration C G loc s)) =
         nls_requests s @ [toLowerCase (getLocale C)])"
    if "nlsConfigurationPromise s = Some (Inr None) \<or>
        (nlsConfigurationPromise s = None \<and> loc = None)" for s loc
    using that
    by (auto simp: resolveNlsConfiguration_def await_def Let_def lp_getNLSConfiguration_def
        truthy_str_def split: sum.splits option.splits prod.splits)
  define s1 where "s1 = snd (resolveNlsConfiguration C G None st)"
  have again: "nlsConfigurationPromise s1 = Some (Inr None) \<and>
      locale_queries s1 = Suc (locale_queries st) \<and>
      locale_queries (snd (resolveNlsConfiguration C G loc s1)) = Suc (Suc (locale_queries st))"
    if fresh: "nlsConfigurationPromise st = None"
    using undef [of st None] undef [of s1 loc] fresh by (simp add: s1_def)
  have again_req: "nls_requests (snd (resolveNlsConfiguration C G loc s1)) =
      nls_requests st @ [toLowerCase (getLocale C), toLowerCase (getLocale C)]"
    if fresh: "nlsConfigurationPromise st = None" and "getLocale C \<noteq> []"
    using undef [of st None] undef [of s1 loc] that by (simp add: s1_def)
  from store memo hit [of st loc] keep again again_req show ?thesis
    unfolding s1_def by blast
qed

theorem nlsConfigurationPromise_memoized_witness:
  "nlsConfigurationPromise (initial_state (\<lambda>_. None)) = None \<and>
   getNLSConfiguration (sample_collaborators (Inl ENOENT) [] sample_provider ''DE-AT'' (Inr ()))
     (commit (sample_globals AUndefined)) (userDataPath (sample_globals AUndefined))
     (metaDataFile (sample_globals AUndefined)) ''fr'' =
     Inr (Some [(''locale'', JString ''fr''), (''pack'', JString ''fr.pack'')]) \<and>
   nlsConfigurationPromise (snd (resolveNlsConfiguration
     (sample_collaborators (Inl ENOENT) [] sample_provider ''DE-AT'' (Inr ()))
     (sample_globals AUndefined) (Some ''fr'') (initial_state (\<lambda>_. None)))) =
     Some (Inr (Some [(''locale'', JString ''fr''), (''pack'', JString ''fr.pack'')])) \<and>
   nls_requests (snd (resolveNlsConfiguration
     (sample_collaborators (Inl ENOENT) [] sample_provider ''DE-AT'' (Inr ()))
     (sample_globals AUndefined) (Some ''fr'')
     (snd (resolveNlsConfiguration
        (sample_collaborators (Inl ENOENT) [] sample_provider ''DE-AT'' (Inr ()))
        (sample_globals AUndefined) (Some ''fr'') (initial_state (\<lambda>_. None)))))) = [''fr''] \<and>
   locale_queries (snd (resolveNlsConfiguration
     (sample_collaborators (Inl ENOENT) [] sample_provider ''DE-AT'' (Inr ()))
     (sample_globals AUndefined) (Some ''fr'')
     (snd (resolveNlsConfiguration
        (sample_collaborators (Inl ENOENT) [] sample_provider ''DE-AT'' (Inr ()))
        (sample_globals AUndefined) (Some ''fr'') (initial_state (\<lambda>_. None)))))) = 0 \<and>
   fst (resolveNlsConfiguration
     (sample_collaborators (Inl ENOENT) [] sample_provider ''DE-AT'' (Inr ()))
     (sample_globals AUndefined) None
     ((initial_state (\<lambda>_. None))\<lparr>nlsConfigurationPromise :=
        Some (Inr (Some [(''locale'', JString ''ja'')]))\<rparr>)) = Inr [(''locale'', JString ''ja'')] \<and>
   nlsConfigurationPromise (snd (resolveNlsConfiguration
     (sample_collaborators (Inl ENOENT) [] sample_provider ''DE-AT'' (Inr ()))
     (sample_globals AUndefined) (Some ''fr'')
     ((initial_state (\<lambda>_. None))\<lparr>nlsConfigurationPromise := Some (Inr None)\<rparr>))) =
     Some (Inr None) \<and>
   getLocale (sample_collaborators (Inl ENOENT) [] sample_provider ''DE-AT'' (Inr ())) \<noteq> [] \<and>
   locale_queries (snd (resolveNlsConfiguration
     (sample_collaborators (Inl ENOENT) [] sample_provider ''DE-AT'' (Inr ()))
     (sample_globals AUndefined) None
     (snd (resolveNlsConfiguration
        (sample_collaborators (Inl ENOENT) [] sample_provider ''DE-AT'' (Inr ()))
        (sample_globals AUndefined) None (initial_state (\<lambda>_. None)))))) = 2 \<and>
   nls_requests (snd (resolveNlsConfiguration
     (sample_collaborators (Inl ENOENT) [] sample_provider ''DE-AT'' (Inr ()))
     (sample_globals AUndefined) None
     (snd (resolveNlsConfiguration
        (sample_collaborators (Inl ENOENT) [] sample_provider ''DE-AT'' (Inr ()))
        (sample_globals AUndefined) None (initial_state (\<lambda>_. None)))))) =
     [''de-at'', ''de-at'']"
proof -
  let ?C = "sample_collaborators (Inl ENOENT) [] sample_provider ''DE-AT'' (Inr ())"
  let ?G = "sample_globals AUndefined"
  let ?s = "initial_state (\<lambda>_. None)"
  let ?fr = "[(''locale'', JString ''fr''), (''pack'', JString ''fr.pack'')]"
  let ?ja = "[(''locale'', JString ''ja'')]"
  have h1: "nlsConfigurationPromise ?s = None" by (simp add: initial_state_def)
  have h2: "''fr'' \<noteq> []" by simp
  have h3: "getNLSConfiguration ?C (commit ?G) (userDataPath ?G) (metaDataFile ?G) ''fr'' =
      Inr (Some ?fr)"
    by (simp add: sample_collaborators_def sample_provider_def)
  have h4: "getLocale ?C \<noteq> []" by (simp add: sample_collaborators_def)
  have h5: "nlsConfigurationPromise (?s\<lparr>nlsConfigurationPromise := Some (Inr (Some ?ja))\<rparr>) =
      Some (Inr (Some ?ja))" by simp
  have h6: "nlsConfigurationPromise (?s\<lparr>nlsConfigurationPromise := Some (Inr None)\<rparr>) =
      Some (Inr None)" by simp
  have lc: "toLowerCase (getLocale ?C) = ''de-at''"
    by (simp add: sample_collaborators_def toLowerCase_def toLowerCase_unit_def)
  note T = nlsConfigurationPromise_memoized [where C = ?C and G = ?G and st = ?s
      and l = "''fr''" and nlsConfiguration = ?fr and loc = "Some ''fr''" and p = "Inr None"]
  have t1: "nlsConfigurationPromise (snd (resolveNlsConfiguration ?C ?G (Some ''fr'') ?s)) =
      Some (getNLSConfiguration ?C (commit ?G) (userDataPath ?G) (metaDataFile ?G) ''fr'')"
    using T [THEN conjunct1] h1 h2 by blast
  have t2: "resolveNlsConfiguration ?C ?G (Some ''fr'') ?s =
      (Inr ?fr, ?s\<lparr>nlsConfigurationPromise := Some (Inr (Some ?fr)),
                    nls_requests := nls_requests ?s @ [''fr'']\<rparr>) \<and>
      resolveNlsConfiguration ?C ?G (Some ''fr'')
        (snd (resolveNlsConfiguration ?C ?G (Some ''fr'') ?s)) =
      (Inr ?fr, snd (resolveNlsConfiguration ?C ?G (Some ''fr'') ?s))"
    using T [THEN conjunct2, THEN conjunct1] h1 h2 h3 by blast
  note U = nlsConfigurationPromise_memoized [where C = ?C and G = ?G
      and st = "?s\<lparr>nlsConfigurationPromise := Some (Inr (Some ?ja))\<rparr>"
      and l = "''fr''" and nlsConfiguration = ?ja and loc = None and p = "Inr None"]
  have t3: "resolveNlsConfiguration ?C ?G None
      (?s\<lparr>nlsConfigurationPromise := Some (Inr (Some ?ja))\<rparr>) =
      (Inr ?ja, ?s\<lparr>nlsConfigurationPromise := Some (Inr (Some ?ja))\<rparr>)"
    using U [THEN conjunct2, THEN conjunct2, THEN conjunct1] h5 by blast
  note V = nlsConfigurationPromise_memoized [where C = ?C and G = ?G
      and st = "?s\<lparr>nlsConfigurationPromise := Some (Inr None)\<rparr>"
      and l = "''fr''" and nlsConfiguration = ?ja and loc = "Some ''fr''" and p = "Inr None"]
  have t4: "nlsConfigurationPromise (snd (resolveNlsConfiguration ?C ?G (Some ''fr'')
      (?s\<lparr>nlsConfigurationPromise := Some (Inr None)\<rparr>))) = Some (Inr None)"
    using V [THEN conjunct2, THEN conjunct2, THEN conjunct2, THEN conjunct1] h6 by blast
  note W = nlsConfigurationPromise_memoized [where C = ?C and G = ?G and st = ?s
      and l = "''fr''" and nlsConfiguration = ?fr and loc = None and p = "Inr None"]
  have t5: "locale_queries (snd (resolveNlsConfiguration ?C ?G None
      (snd (resolveNlsConfiguration ?C ?G None ?s)))) = Suc (Suc (locale_queries ?s))"
    using W [THEN conjunct2, THEN conjunct2, THEN conjunct2, THEN conjunct2, THEN conjunct1] h1
    by blast
  have t6: "nls_requests (snd (resolveNlsConfiguration ?C ?G None
      (snd (resolveNlsConfiguration ?C ?G None ?s)))) =
      nls_requests ?s @ [toLowerCase (getLocale ?C), toLowerCase (getLocale ?C)]"
    using W [THEN conjunct2, THEN conjunct2, THEN conjunct2, THEN conjunct2, THEN conjunct2]
      h1 h4 by blast
  have r1: "nlsConfigurationPromise (snd (resolveNlsConfiguration ?C ?G (Some ''fr'') ?s)) =
      Some (Inr (Some ?fr))"
    using t1 h3 by simp
  have "snd (resolveNlsConfiguration ?C ?G (Some ''fr'')
        (snd (resolveNlsConfiguration ?C ?G (Some ''fr'') ?s))) =
      ?s\<lparr>nlsConfigurationPromise := Some (Inr (Some ?fr)),
         nls_requests := nls_requests ?s @ [''fr'']\<rparr>"
    using t2 by (metis snd_conv)
  then have r2: "nls_requests (snd (resolveNlsConfiguration ?C ?G (Some ''fr'')
        (snd (resolveNlsConfiguration ?C ?G (Some ''fr'') ?s)))) = [''fr'']"
    "locale_queries (snd (resolveNlsConfiguration ?C ?G (Some ''fr'')
        (snd (resolveNlsConfiguration ?C ?G (Some ''fr'') ?s)))) = 0"
    by (simp_all add: initial_state_def)
  have r3: "fst (resolveNlsConfiguration ?C ?G None
      (?s\<lparr>nlsConfigurationPromise := Some (Inr (Some ?ja))\<rparr>)) = Inr ?ja"
    using t3 by simp
  have r5: "locale_queries (snd (resolveNlsConfiguration ?C ?G None
      (snd (resolveNlsConfiguration ?C ?G None ?s)))) = 2"
    using t5 by (simp add: initial_state_def)
  have r6: "nls_requests (snd (resolveNlsConfiguration ?C ?G None
      (snd (resolveNlsConfiguration ?C ?G None ?s)))) = [''de-at'', ''de-at'']"
    using t6 by (simp add: lc initial_state_def)
  show ?thesis
    by (intro conjI) (rule h1, rule h3, rule r1, rule r2(1), rule r2(2), rule r3, rule t4,
      rule h4, rule r5, rule r6)
qed

text \<open>
  C2 as stated fails: with no user-defined locale and the platform locale \<open>DE-AT\<close>, a second
  call asks the platform again and the provider again.
\<close>

theorem resolveNlsConfiguration_twice:
  "locale_queries (snd (resolveNlsConfiguration
      (sample_collaborators (Inl ENOENT) [] sample_provider ''DE-AT'' (Inr ()))
      (sample_globals AUndefined) None
      (snd (resolveNlsConfiguration
         (sample_collaborators (Inl ENOENT) [] sample_provider ''DE-AT'' (Inr ()))
         (sample_globals AUndefined) None (initial_state (\<lambda>_. None)))))) = 2 \<and>
   nls_requests (snd (resolveNlsConfiguration
      (sample_collaborators (Inl ENOENT) [] sample_provider ''DE-AT'' (Inr ()))
      (sample_globals AUndefined) None
      (snd (resolveNlsConfiguration
         (sample_collaborators (Inl ENOENT) [] sample_provider ''DE-AT'' (Inr ()))
         (sample_globals AUndefined) None (initial_state (\<lambda>_. None)))))) =
     [''de-at'', ''de-at'']"
  by (simp add: resolveNlsConfiguration_def await_def fallback_configuration_def
      sample_collaborators_def sample_globals_def sample_provider_def initial_state_def
      truthy_str_def lp_getNLSConfiguration_def toLowerCase_def toLowerCase_unit_def Let_def)

subsection \<open>C3\<close>

text \<open>
  C3. \<open>getJSFlags\<close> with \<open>max-memory\<close> 4096 and no \<open>js-flags\<close> returns exactly
  \<open>--max_old_space_size=4096\<close>; with \<open>js-flags\<close> \<open>--foo --max_old_space_size=2048\<close> and
  \<open>max-memory\<close> 4096 it returns the given \<open>js-flags\<close> string unchanged. The other
  arguments do not matter.
\<close>

theorem getJSFlags_max_memory:
  "getJSFlags (a(''js-flags'' := AUndefined, ''max-memory'' := AString ''4096'')) =
     Some ''--max_old_space_size=4096'' \<and>
   getJSFlags (a(''js-flags'' := AString ''--foo --max_old_space_size=2048'',
                 ''max-memory'' := AString ''4096'')) =
     Some ''--foo --max_old_space_size=2048''"
  by (simp add: getJSFlags_def truthy_def ToString_def max_old_space_size_regexp_def
      rx_match_def Plus_def ms_Seq ms_Star)

subsection \<open>C4\<close>

text \<open>
  C4, as amended. With a CLI locale \<open>l\<close> (a non-empty string), \<open>getUserDefinedLocale\<close>
  returns \<open>l\<close> lower-cased and reads no file. When the provider has a configuration for
  that locale, it is the result, and neither the platform locale nor the provider is asked
  again; when the provider has none for it, the platform locale is asked, and the provider
  for the platform locale lower-cased when that is non-empty. With no CLI locale and no
  usable locale file, and a non-empty platform locale, the provider is asked once, for the
  platform locale lower-cased, and the result is its configuration, or, when it has none,
  the fallback configuration of that locale. Each part holds on its own, for every provider
  and platform locale, and in every run of the module in which
  \<open>configureCommandlineSwitches\<close> returns.
\<close>

theorem locale_chain:
  "(args G ''locale'' = AString l \<and> l \<noteq> [] \<longrightarrow>
      getUserDefinedLocale C G st = (Inr (Some (toLowerCase l)), st)) \<and>
   (l \<noteq> [] \<and> nlsConfigurationPromise st = None \<and>
    getNLSConfiguration C (commit G) (userDataPath G) (metaDataFile G) (toLowerCase l) =
      Inr (Some nlsConfiguration) \<longrightarrow>
      resolveNlsConfiguration C G (Some (toLowerCase l))
        (userDefinedLocale_then C G (Inr (Some (toLowerCase l))) st) =
      (Inr nlsConfiguration,
       st\<lparr>nlsConfigurationPromise := Some (Inr (Some nlsConfiguration)),
          nls_requests := nls_requests st @ [toLowerCase l]\<rparr>)) \<and>
   (l \<noteq> [] \<and> nlsConfigurationPromise st = None \<and>
    getNLSConfiguration C (commit G) (userDataPath G) (metaDataFile G) (toLowerCase l) =
      Inr None \<longrightarrow>
      locale_queries (snd (resolveNlsConfiguration C G (Some (toLowerCase l))
        (userDefinedLocale_then C G (Inr (Some (toLowerCase l))) st))) =
        Suc (locale_queries st) \<and>
      (getLocale C \<noteq> [] \<longrightarrow>
         nls_requests (snd (resolveNlsConfiguration C G (Some (toLowerCase l))
           (userDefinedLocale_then C G (Inr (Some (toLowerCase l))) st))) =
           nls_requests st @ [toLowerCase l, toLowerCase (getLocale C)])) \<and>
   (\<not> truthy (args G ''locale'') \<and> fst (getUserDefinedLocale C G st) = Inr None \<and>
    nlsConfigurationPromise st = None \<and> getLocale C \<noteq> [] \<and>
    getNLSConfiguration C (commit G) (userDataPath G) (metaDataFile G)
      (toLowerCase (getLocale C)) = Inr r \<longrightarrow>
      resolveNlsConfiguration C G None
        (userDefinedLocale_then C G (Inr None) (snd (getUserDefinedLocale C G st))) =
      (Inr (case r of None \<Rightarrow> fallback_configuration (toLowerCase (getLocale C))
            | Some nlsConfiguration \<Rightarrow> nlsConfiguration),
       (snd (getUserDefinedLocale C G st))
         \<lparr>nlsConfigurationPromise := Some (Inr None),
          locale_queries := Suc (locale_queries st),
          nls_requests := nls_requests st @ [toLowerCase (getLocale C)]\<rparr>)) \<and>
   (fst (loadFlagsConfig C G w) \<noteq> JNull \<and> args G ''locale'' = AString l \<and> l \<noteq> [] \<and>
    nlsConfigurationPromise st = None \<and>
    getNLSConfiguration C (commit G) (userDataPath G) (metaDataFile G) (toLowerCase l) =
      Inr (Some nlsConfiguration) \<longrightarrow>
      files_read (final_state (main_run C G st w a)) = files_read st \<and>
      locale_queries (final_state (main_run C G st w a)) = locale_queries st \<and>
      nls_requests (final_state (main_run C G st w a)) = nls_requests st @ [toLowerCase l] \<and>
      process_env (final_state (main_run C G st w a)) ''VSCODE_NLS_CONFIG'' =
        Some (JSON_stringify C
          (JObject (set_prop nlsConfiguration ''_languagePackSupport'' (JBool True))))) \<and>
   (fst (loadFlagsConfig C G w) \<noteq> JNull \<and> args G ''locale'' = AString l \<and> l \<noteq> [] \<and>
    nlsConfigurationPromise st = None \<and>
    getNLSConfiguration C (commit G) (userDataPath G) (metaDataFile G) (toLowerCase l) =
      Inr None \<longrightarrow>
      locale_queries (final_state (main_run C G st w a)) = Suc (locale_queries st)) \<and>
   (fst (loadFlagsConfig C G w) \<noteq> JNull \<and>
    \<not> truthy (args G ''locale'') \<and> fst (getUserDefinedLocale C G st) = Inr None \<and>
    nlsConfigurationPromise st = None \<and> getLocale C \<noteq> [] \<and>
    getNLSConfiguration C (commit G) (userDataPath G) (metaDataFile G)
      (toLowerCase (getLocale C)) = Inr r \<longrightarrow>
      locale_queries (final_state (main_run C G st w a)) = Suc (locale_queries st) \<and>
      nls_requests (final_state (main_run C G st w a)) =
        nls_requests st @ [toLowerCase (getLocale C)] \<and>
      process_env (final_state (main_run C G st w a)) ''VSCODE_NLS_CONFIG'' =
        Some (JSON_stringify C
          (JObject (set_prop
            (case r of None \<Rightarrow> fallback_configuration (toLowerCase (getLocale C))
             | Some nlsConfiguration \<Rightarrow> nlsConfiguration)
            ''_languagePackSupport'' (JBool True)))))"
proof -
  let ?d = "NodeCachedDir_compute C G (process_env st)"
  have a1: "getUserDefinedLocale C G st = (Inr (Some (toLowerCase l)), st)"
    if "args G ''locale'' = AString l" "l \<noteq> []"
    using that by (simp add: getUserDefinedLocale_def truthy_def)
  have a2: "resolveNlsConfiguration C G (Some (toLowerCase l))
        (userDefinedLocale_then C G (Inr (Some (toLowerCase l))) st) =
      (Inr nlsConfiguration,
       st\<lparr>nlsConfigurationPromise := Some (Inr (Some nlsConfiguration)),
          nls_requests := nls_requests st @ [toLowerCase l]\<rparr>)"
    if "l \<noteq> []" "nlsConfigurationPromise st = None"
      "getNLSConfiguration C (commit G) (userDataPath G) (metaDataFile G) (toLowerCase l) =
        Inr (Some nlsConfiguration)"
    using that
    by (simp add: userDefinedLocale_then_def truthy_str_def lp_getNLSConfiguration_def
        resolveNlsConfiguration_def await_def)
  have a3: "locale_queries (snd (resolveNlsConfiguration C G (Some (toLowerCase l))
        (userDefinedLocale_then C G (Inr (Some (toLowerCase l))) st))) =
        Suc (locale_queries st) \<and>
      (getLocale C \<noteq> [] \<longrightarrow>
         nls_requests (snd (resolveNlsConfiguration C G (Some (toLowerCase l))
           (userDefinedLocale_then C G (Inr (Some (toLowerCase l))) st))) =
           nls_requests st @ [toLowerCase l, toLowerCase (getLocale C)])"
    if "l \<noteq> []" "nlsConfigurationPromise st = None"
      "getNLSConfiguration C (commit G) (userDataPath G) (metaDataFile G) (toLowerCase l) =
        Inr None"
  proof -
    have h: "userDefinedLocale_then C G (Inr (Some (toLowerCase l))) st =
        st\<lparr>nlsConfigurationPromise := Some (Inr None),
           nls_requests := nls_requests st @ [toLowerCase l]\<rparr>"
      using that
      by (simp add: userDefinedLocale_then_def truthy_str_def lp_getNLSConfiguration_def)
    show ?thesis
      unfolding h
      by (auto simp: resolveNlsConfiguration_def await_def Let_def lp_getNLSConfiguration_def
          split: sum.splits option.splits prod.splits)
  qed
  have b: "resolveNlsConfiguration C G None
        (userDefinedLocale_then C G (Inr None) (snd (getUserDefinedLocale C G st))) =
      (Inr (case r of None \<Rightarrow> fallback_configuration (toLowerCase (getLocale C))
            | Some nlsConfiguration \<Rightarrow> nlsConfiguration),
       (snd (getUserDefinedLocale C G st))
         \<lparr>nlsConfigurationPromise := Some (Inr None),
          locale_queries := Suc (locale_queries st),
          nls_requests := nls_requests st @ [toLowerCase (getLocale C)]\<rparr>)"
    if "\<not> truthy (args G ''locale'')" "fst (getUserDefinedLocale C G st) = Inr None"
      "nlsConfigurationPromise st = None" "getLocale C \<noteq> []"
      "getNLSConfiguration C (commit G) (userDataPath G) (metaDataFile G)
        (toLowerCase (getLocale C)) = Inr r"
  proof -
    let ?s1 = "snd (getUserDefinedLocale C G st)"
    have s1: "nlsConfigurationPromise ?s1 = None" "locale_queries ?s1 = locale_queries st"
      "nls_requests ?s1 = nls_requests st"
      using that(1,3)
      by (auto simp: getUserDefinedLocale_def Let_def split: sum.splits)
    have h: "userDefinedLocale_then C G (Inr None) ?s1 = ?s1"
      by (simp add: userDefinedLocale_then_def truthy_str_def)
    show ?thesis
      unfolding h using s1 that(4,5)
      by (cases r)
        (simp_all add: resolveNlsConfiguration_def truthy_str_def await_def Let_def
          lp_getNLSConfiguration_def)
  qed
  have m1: "files_read (final_state (main_run C G st w a)) = files_read st \<and>
      locale_queries (final_state (main_run C G st w a)) = locale_queries st \<and>
      nls_requests (final_state (main_run C G st w a)) = nls_requests st @ [toLowerCase l] \<and>
      process_env (final_state (main_run C G st w a)) ''VSCODE_NLS_CONFIG'' =
        Some (JSON_stringify C
          (JObject (set_prop nlsConfiguration ''_languagePackSupport'' (JBool True))))"
    if nt: "fst (loadFlagsConfig C G w) \<noteq> JNull"
      and cli: "args G ''locale'' = AString l" "l \<noteq> []"
      and fresh: "nlsConfigurationPromise st = None"
      and pack: "getNLSConfiguration C (commit G) (userDataPath G) (metaDataFile G)
        (toLowerCase l) = Inr (Some nlsConfiguration)"
  proof -
    note r = a2 [OF cli(2) fresh pack]
    then have "fst (resolveNlsConfiguration C G (Some (toLowerCase l))
        (userDefinedLocale_then C G (Inr (Some (toLowerCase l))) st)) = Inr nlsConfiguration"
      by simp
    from onReady_rejected(3) [OF this, of ?d] main_run_ready(2) [OF nt, of st a]
    have "final_state (main_run C G st w a) =
        startup C (ensureExists C ?d) nlsConfiguration
          (st\<lparr>nlsConfigurationPromise := Some (Inr (Some nlsConfiguration)),
              nls_requests := nls_requests st @ [toLowerCase l]\<rparr>)"
      by (simp add: a1 [OF cli] r)
    then show ?thesis by (simp add: startup_fields)
  qed
  have m3: "locale_queries (final_state (main_run C G st w a)) = Suc (locale_queries st)"
    if nt: "fst (loadFlagsConfig C G w) \<noteq> JNull"
      and cli: "args G ''locale'' = AString l" "l \<noteq> []"
      and fresh: "nlsConfigurationPromise st = None"
      and nopack: "getNLSConfiguration C (commit G) (userDataPath G) (metaDataFile G)
        (toLowerCase l) = Inr None"
  proof -
    let ?s2 = "userDefinedLocale_then C G (Inr (Some (toLowerCase l))) st"
    let ?r = "resolveNlsConfiguration C G (Some (toLowerCase l)) ?s2"
    have q: "locale_queries (snd ?r) = Suc (locale_queries st)"
      using a3 [OF cli(2) fresh nopack] by simp
    have f: "final_state (main_run C G st w a) = onReady C G ?d (Inr (Some (toLowerCase l))) ?s2"
      using main_run_ready(2) [OF nt, of st a] by (simp add: a1 [OF cli])
    show ?thesis
    proof (cases "fst ?r")
      case (Inl e)
      from onReady_rejected(2) [OF this, of ?d] q show ?thesis
        unfolding f by (simp add: console_error_def)
    next
      case (Inr cfg)
      from onReady_rejected(3) [OF this, of ?d] q show ?thesis
        unfolding f by (simp add: startup_fields)
    qed
  qed
  have m2: "locale_queries (final_state (main_run C G st w a)) = Suc (locale_queries st) \<and>
      nls_requests (final_state (main_run C G st w a)) =
        nls_requests st @ [toLowerCase (getLocale C)] \<and>
      process_env (final_state (main_run C G st w a)) ''VSCODE_NLS_CONFIG'' =
        Some (JSON_stringify C
          (JObject (set_prop
            (case r of None \<Rightarrow> fallback_configuration (toLowerCase (getLocale C))
             | Some nlsConfiguration \<Rightarrow> nlsConfiguration)
            ''_languagePackSupport'' (JBool True))))"
    if nt: "fst (loadFlagsConfig C G w) \<noteq> JNull"
      and nocli: "\<not> truthy (args G ''locale'')"
      and nofile: "fst (getUserDefinedLocale C G st) = Inr None"
      and fresh: "nlsConfigurationPromise st = None"
      and platform: "getLocale C \<noteq> []"
        "getNLSConfiguration C (commit G) (userDataPath G) (metaDataFile G)
          (toLowerCase (getLocale C)) = Inr r"
  proof -
    let ?cfg = "case r of None \<Rightarrow> fallback_configuration (toLowerCase (getLocale C))
             | Some nlsConfiguration \<Rightarrow> nlsConfiguration"
    note r = b [OF nocli nofile fresh platform]
    then have "fst (resolveNlsConfiguration C G None
        (userDefinedLocale_then C G (Inr None) (snd (getUserDefinedLocale C G st)))) = Inr ?cfg"
      by simp
    from onReady_rejected(3) [OF this, of ?d] main_run_ready(2) [OF nt, of st a]
    have "final_state (main_run C G st w a) =
        startup C (ensureExists C ?d) ?cfg
          ((snd (getUserDefinedLocale C G st))
            \<lparr>nlsConfigurationPromise := Some (Inr None),
             locale_queries := Suc (locale_queries st),
             nls_requests := nls_requests st @ [toLowerCase (getLocale C)]\<rparr>)"
      by (simp add: nofile r)
    then show ?thesis by (simp add: startup_fields)
  qed
  from a1 a2 a3 b m1 m3 m2 show ?thesis by blast
qed

theorem locale_chain_witness:
  "args (sample_globals (AString ''FR'')) ''locale'' = AString ''FR'' \<and>
   getUserDefinedLocale (sample_collaborators (Inl ENOENT) [] sample_provider [] (Inr ()))
     (sample_globals (AString ''FR'')) (initial_state (\<lambda>_. None)) =
     (Inr (Some ''fr''), initial_state (\<lambda>_. None)) \<and>
   fst (resolveNlsConfiguration
     (sample_collaborators (Inl ENOENT) [] sample_provider [] (Inr ()))
     (sample_globals (AString ''FR'')) (Some ''fr'')
     (userDefinedLocale_then (sample_collaborators (Inl ENOENT) [] sample_provider [] (Inr ()))
        (sample_globals (AString ''FR'')) (Inr (Some ''fr'')) (initial_state (\<lambda>_. None)))) =
     Inr [(''locale'', JString ''fr''), (''pack'', JString ''fr.pack'')] \<and>
   locale_queries (final_state (main_run
     (sample_collaborators (Inl ENOENT) [] sample_provider [] (Inr ()))
     (sample_globals (AString ''FR'')) (initial_state (\<lambda>_. None)) (sample_disk Absent)
     sample_app)) = 0 \<and>
   nls_requests (final_state (main_run
     (sample_collaborators (Inl ENOENT) [] sample_provider [] (Inr ()))
     (sample_globals (AString ''FR'')) (initial_state (\<lambda>_. None)) (sample_disk Absent)
     sample_app)) = [''fr''] \<and>
   nls_requests (snd (resolveNlsConfiguration
     (sample_collaborators (Inl ENOENT) [] sample_provider ''DE-AT'' (Inr ()))
     (sample_globals (AString ''ES'')) (Some ''es'')
     (userDefinedLocale_then (sample_collaborators (Inl ENOENT) [] sample_provider ''DE-AT'' (Inr ()))
        (sample_globals (AString ''ES'')) (Inr (Some ''es'')) (initial_state (\<lambda>_. None))))) =
     [''es'', ''de-at''] \<and>
   locale_queries (final_state (main_run
     (sample_collaborators (Inl ENOENT) [] sample_provider ''DE-AT'' (Inr ()))
     (sample_globals (AString ''ES'')) (initial_state (\<lambda>_. None)) (sample_disk Absent)
     sample_app)) = 1 \<and>
   \<not> truthy (args (sample_globals AUndefined) ''locale'') \<and>
   fst (resolveNlsConfiguration
     (sample_collaborators (Inl ENOENT) [] (\<lambda>_. Inr None) ''DE-AT'' (Inr ()))
     (sample_globals AUndefined) None
     (userDefinedLocale_then (sample_collaborators (Inl ENOENT) [] (\<lambda>_. Inr None) ''DE-AT'' (Inr ()))
        (sample_globals AUndefined) (Inr None)
        (snd (getUserDefinedLocale
           (sample_collaborators (Inl ENOENT) [] (\<lambda>_. Inr None) ''DE-AT'' (Inr ()))
           (sample_globals AUndefined) (initial_state (\<lambda>_. None)))))) =
     Inr (fallback_configuration ''de-at'') \<and>
   nls_requests (final_state (main_run
     (sample_collaborators (Inl ENOENT) [] (\<lambda>_. Inr None) ''DE-AT'' (Inr ()))
     (sample_globals AUndefined) (initial_state (\<lambda>_. None)) (sample_disk Absent)
     sample_app)) = [''de-at'']"
proof -
  let ?C = "sample_collaborators (Inl ENOENT) [] sample_provider [] (Inr ())"
  let ?D = "sample_collaborators (Inl ENOENT) [] sample_provider ''DE-AT'' (Inr ())"
  let ?E = "sample_collaborators (Inl ENOENT) [] (\<lambda>_. Inr None) ''DE-AT'' (Inr ())"
  let ?F = "sample_globals (AString ''FR'')"
  let ?S = "sample_globals (AString ''ES'')"
  let ?U = "sample_globals AUndefined"
  let ?s = "initial_state (\<lambda>_. None)"
  let ?w = "sample_disk Absent"
  let ?fr = "[(''locale'', JString ''fr''), (''pack'', JString ''fr.pack'')]"
  have nt: "fst (loadFlagsConfig ?C ?F ?w) \<noteq> JNull" "fst (loadFlagsConfig ?D ?S ?w) \<noteq> JNull"
    "fst (loadFlagsConfig ?E ?U ?w) \<noteq> JNull"
    by (simp_all add: loadFlagsConfig_def flags_catch_def readFileSync_def writeFileSync_def
        sample_disk_def sample_collaborators_def sample_globals_def default_flagsConfig_def)
  have lc: "toLowerCase ''FR'' = ''fr''" "toLowerCase ''ES'' = ''es''"
    "toLowerCase ''DE-AT'' = ''de-at''"
    by (simp_all add: toLowerCase_def toLowerCase_unit_def)
  have gl: "getLocale ?D = ''DE-AT''" "getLocale ?E = ''DE-AT''"
    by (simp_all add: sample_collaborators_def)
  have fr: "args ?F ''locale'' = AString ''FR''" and es: "args ?S ''locale'' = AString ''ES''"
    and un: "\<not> truthy (args ?U ''locale'')"
    by (simp_all add: sample_globals_def truthy_def)
  have ne: "''FR'' \<noteq> []" "''ES'' \<noteq> []" "''DE-AT'' \<noteq> []" by simp_all
  have fresh: "nlsConfigurationPromise ?s = None" by (simp add: initial_state_def)
  have pack: "getNLSConfiguration ?C (commit ?F) (userDataPath ?F) (metaDataFile ?F) ''fr'' =
      Inr (Some ?fr)"
    by (simp add: sample_collaborators_def sample_provider_def)
  have nopack: "getNLSConfiguration ?D (commit ?S) (userDataPath ?S) (metaDataFile ?S) ''es'' =
      Inr None"
    by (simp add: sample_collaborators_def sample_provider_def)
  have plat: "getNLSConfiguration ?E (commit ?U) (userDataPath ?U) (metaDataFile ?U) ''de-at'' =
      Inr None"
    by (simp add: sample_collaborators_def)
  have nofile: "fst (getUserDefinedLocale ?E ?U ?s) = Inr None"
    by (simp add: getUserDefinedLocale_def sample_globals_def sample_collaborators_def
        truthy_def read_locale_def Let_def)
  note T = locale_chain [where C = ?C and G = ?F and st = ?s and w = ?w and a = sample_app
      and l = "''FR''" and nlsConfiguration = ?fr and r = None, unfolded lc]
  note U = locale_chain [where C = ?D and G = ?S and st = ?s and w = ?w and a = sample_app
      and l = "''ES''" and nlsConfiguration = ?fr and r = None, unfolded lc gl]
  note V = locale_chain [where C = ?E and G = ?U and st = ?s and w = ?w and a = sample_app
      and l = "''FR''" and nlsConfiguration = ?fr and r = None, unfolded lc gl]
  have t1: "getUserDefinedLocale ?C ?F ?s = (Inr (Some ''fr''), ?s)"
    using T [THEN conjunct1] fr ne by blast
  have t2: "resolveNlsConfiguration ?C ?F (Some ''fr'')
      (userDefinedLocale_then ?C ?F (Inr (Some ''fr'')) ?s) =
      (Inr ?fr, ?s\<lparr>nlsConfigurationPromise := Some (Inr (Some ?fr)),
                    nls_requests := nls_requests ?s @ [''fr'']\<rparr>)"
    using T [THEN conjunct2, THEN conjunct1] ne fresh pack by blast
  have t3: "locale_queries (final_state (main_run ?C ?F ?s ?w sample_app)) = locale_queries ?s \<and>
      nls_requests (final_state (main_run ?C ?F ?s ?w sample_app)) = nls_requests ?s @ [''fr'']"
    using T [THEN conjunct2, THEN conjunct2, THEN conjunct2, THEN conjunct2, THEN conjunct1]
      nt(1) fr ne fresh pack by blast
  have u1: "nls_requests (snd (resolveNlsConfiguration ?D ?S (Some ''es'')
      (userDefinedLocale_then ?D ?S (Inr (Some ''es'')) ?s))) =
      nls_requests ?s @ [''es'', ''de-at'']"
    using U [THEN conjunct2, THEN conjunct2, THEN conjunct1] ne fresh nopack by blast
  have u2: "locale_queries (final_state (main_run ?D ?S ?s ?w sample_app)) =
      Suc (locale_queries ?s)"
    using U [THEN conjunct2, THEN conjunct2, THEN conjunct2, THEN conjunct2, THEN conjunct2,
        THEN conjunct1] nt(2) es ne fresh nopack by blast
  have v1: "resolveNlsConfiguration ?E ?U None
      (userDefinedLocale_then ?E ?U (Inr None) (snd (getUserDefinedLocale ?E ?U ?s))) =
      (Inr (case None of None \<Rightarrow> fallback_configuration ''de-at''
            | Some nlsConfiguration \<Rightarrow> nlsConfiguration),
       (snd (getUserDefinedLocale ?E ?U ?s))
         \<lparr>nlsConfigurationPromise := Some (Inr None),
          locale_queries := Suc (locale_queries ?s),
          nls_requests := nls_requests ?s @ [''de-at'']\<rparr>)"
    using V [THEN conjunct2, THEN conjunct2, THEN conjunct2, THEN conjunct1]
      un nofile fresh ne plat by blast
  have v2: "nls_requests (final_state (main_run ?E ?U ?s ?w sample_app)) =
      nls_requests ?s @ [''de-at'']"
    using V [THEN conjunct2, THEN conjunct2, THEN conjunct2, THEN conjunct2, THEN conjunct2,
        THEN conjunct2] nt(3) un nofile fresh ne plat by blast
  have r2: "fst (resolveNlsConfiguration ?C ?F (Some ''fr'')
      (userDefinedLocale_then ?C ?F (Inr (Some ''fr'')) ?s)) = Inr ?fr"
    using t2 by simp
  have r3: "locale_queries (final_state (main_run ?C ?F ?s ?w sample_app)) = 0"
    "nls_requests (final_state (main_run ?C ?F ?s ?w sample_app)) = [''fr'']"
    using t3 by (simp_all add: initial_state_def)
  have r4: "nls_requests (snd (resolveNlsConfiguration ?D ?S (Some ''es'')
      (userDefinedLocale_then ?D ?S (Inr (Some ''es'')) ?s))) = [''es'', ''de-at'']"
    using u1 by (simp add: initial_state_def)
  have r5: "locale_queries (final_state (main_run ?D ?S ?s ?w sample_app)) = 1"
    using u2 by (simp add: initial_state_def)
  have r6: "fst (resolveNlsConfiguration ?E ?U None
      (userDefinedLocale_then ?E ?U (Inr None) (snd (getUserDefinedLocale ?E ?U ?s)))) =
      Inr (fallback_configuration ''de-at'')"
    using v1 by simp
  have r7: "nls_requests (final_state (main_run ?E ?U ?s ?w sample_app)) = [''de-at'']"
    using v2 by (simp add: initial_state_def)
  show ?thesis
    by (intro conjI) (rule fr, rule t1, rule r2, rule r3(1), rule r3(2), rule r4, rule r5,
      rule un, rule r6, rule r7)
qed

text \<open>
  C4 as stated fails: with the CLI locale \<open>FR\<close> and a provider without a configuration for
  \<open>fr\<close>, the platform locale \<open>DE-AT\<close> is asked, and the configuration handed to the next
  stage is that of \<open>de-at\<close>.
\<close>

theorem main_run_cli_locale_without_pack:
  "locale_queries (final_state (main_run
      (sample_collaborators (Inl ENOENT) [] (\<lambda>_. Inr None) ''DE-AT'' (Inr ()))
      (sample_globals (AString ''FR'')) (initial_state (\<lambda>_. None)) (sample_disk Absent)
      sample_app)) = 1 \<and>
   nls_requests (final_state (main_run
      (sample_collaborators (Inl ENOENT) [] (\<lambda>_. Inr None) ''DE-AT'' (Inr ()))
      (sample_globals (AString ''FR'')) (initial_state (\<lambda>_. None)) (sample_disk Absent)
      sample_app)) = [''fr'', ''de-at''] \<and>
   process_env (final_state (main_run
      (sample_collaborators (Inl ENOENT) [] (\<lambda>_. Inr None) ''DE-AT'' (Inr ()))
      (sample_globals (AString ''FR'')) (initial_state (\<lambda>_. None)) (sample_disk Absent)
      sample_app)) ''VSCODE_NLS_CONFIG'' =
     Some ''{\"locale\":\"de-at\",\"availableLanguages\":{},\"_languagePackSupport\":true}''"
proof -
  let ?C = "sample_collaborators (Inl ENOENT) [] (\<lambda>_. Inr None) ''DE-AT'' (Inr ())"
  have nt: "fst (loadFlagsConfig ?C (sample_globals (AString ''FR'')) (sample_disk Absent)) \<noteq>
      JNull"
    by (simp add: loadFlagsConfig_def flags_catch_def readFileSync_def writeFileSync_def
        sample_disk_def sample_collaborators_def sample_globals_def default_flagsConfig_def)
  show ?thesis
    unfolding main_run_ready [OF nt]
    by (simp add: getUserDefinedLocale_def userDefinedLocale_then_def
      resolveNlsConfiguration_def onReady_def startup_def ensureExists_def
      NodeCachedDir_compute_def await_def fallback_configuration_def
      sample_collaborators_def sample_globals_def initial_state_def truthy_def truthy_str_def
      lp_getNLSConfiguration_def toLowerCase_def toLowerCase_unit_def Let_def)
qed

subsection \<open>C5\<close>

text \<open>
  C5, as amended. Without a CLI locale, \<open>getUserDefinedLocale\<close> never rejects: it yields the
  \<open>locale\<close> field lower-cased when the file is read, its text without comments parses to an
  object, and the field is a non-empty string; in every other case, also that of the empty
  string, it yields \<open>undefined\<close>.
\<close>

theorem getUserDefinedLocale_file:
  assumes "\<not> truthy (args G ''locale'')"
  shows "fst (getUserDefinedLocale C G st) =
     Inr (case readFile C (path_join C [userDataPath G, ''User'', ''locale.json'']) of
            Inl e \<Rightarrow> None
          | Inr content \<Rightarrow>
              (case JSON_parse C (stripComments content) of
                 Some (JObject kvs) \<Rightarrow>
                   (case map_of kvs ''locale'' of
                      Some (JString v) \<Rightarrow> if v \<noteq> [] then Some (toLowerCase v) else None
                    | _ \<Rightarrow> None)
               | _ \<Rightarrow> None))"
proof -
  let ?r = "readFile C (path_join C [userDataPath G, ''User'', ''locale.json''])"
  show ?thesis
  proof (cases ?r)
    case (Inl e)
    then show ?thesis using assms
      by (simp add: getUserDefinedLocale_def Let_def read_locale_def)
  next
    case (Inr content)
    show ?thesis
    proof (cases "JSON_parse C (stripComments content)")
      case None
      then show ?thesis using assms Inr
        by (simp add: getUserDefinedLocale_def Let_def read_locale_def)
    next
      case (Some j)
      show ?thesis
      proof (cases j)
        case (JObject kvs)
        show ?thesis
        proof (cases "map_of kvs ''locale''")
          case None
          then show ?thesis using assms Inr Some JObject
            by (simp add: getUserDefinedLocale_def Let_def read_locale_def)
        next
          case (Some v)
          then show ?thesis using assms Inr \<open>JSON_parse C (stripComments content) = Some j\<close> JObject
            by (cases v) (simp_all add: getUserDefinedLocale_def Let_def read_locale_def)
        qed
      qed (use assms Inr Some in \<open>simp_all add: getUserDefinedLocale_def Let_def read_locale_def\<close>)
    qed
  qed
qed

theorem getUserDefinedLocale_file_witness:
  "\<not> truthy (args (sample_globals AUndefined) ''locale'') \<and>
   fst (getUserDefinedLocale
      (sample_collaborators (Inr ''{ // the language\<newline> \"locale\": \"PT-br\" }'')
         [(''{ \<newline> \"locale\": \"PT-br\" }'', JObject [(''locale'', JString ''PT-br'')])]
         (\<lambda>_. Inr None) ''en'' (Inr ()))
      (sample_globals AUndefined) (initial_state (\<lambda>_. None))) = Inr (Some ''pt-br'')"
  using getUserDefinedLocale_file
    [of "sample_globals AUndefined"
        "sample_collaborators (Inr ''{ // the language\<newline> \"locale\": \"PT-br\" }'')
         [(''{ \<newline> \"locale\": \"PT-br\" }'', JObject [(''locale'', JString ''PT-br'')])]
         (\<lambda>_. Inr None) ''en'' (Inr ())"
        "initial_state (\<lambda>_. None)"]
  by (simp add: sample_collaborators_def sample_globals_def truthy_def stripComments_scan
      stripComments_Nil matched_def isLineTerminator_def toLowerCase_def toLowerCase_unit_def)

text \<open>
  C5 as stated fails for the file \<^verbatim>\<open>{"locale": ""}\<close>: the field is a string, and the
  result is \<open>undefined\<close>, not that string lower-cased.
\<close>

theorem getUserDefinedLocale_empty_locale:
  "fst (getUserDefinedLocale
      (sample_collaborators (Inr ''{\"locale\": \"\"}'')
         [(''{\"locale\": \"\"}'', JObject [(''locale'', JString '''')])]
         (\<lambda>_. Inr None) ''en'' (Inr ()))
      (sample_globals AUndefined) (initial_state (\<lambda>_. None))) = Inr None \<and>
   fst (getUserDefinedLocale
      (sample_collaborators (Inr ''{\"locale\": \"\"}'')
         [(''{\"locale\": \"\"}'', JObject [(''locale'', JString '''')])]
         (\<lambda>_. Inr None) ''en'' (Inr ()))
      (sample_globals AUndefined) (initial_state (\<lambda>_. None))) \<noteq>
     Inr (Some (toLowerCase ''''))"
  by (simp add: getUserDefinedLocale_def sample_collaborators_def sample_globals_def
      truthy_def read_locale_def stripComments_scan stripComments_Nil matched_def
      isLineTerminator_def initial_state_def)

subsection \<open>C6\<close>

text \<open>
  C6. A block comment whose text holds a carriage return that no line feed follows is not
  removed: the input comes back unchanged, where the same comment with a line feed, or with
  carriage return and line feed, is removed. A line comment with such a carriage return
  stays as well.
\<close>

theorem stripComments_block_comment_CR:
  "stripComments (''/*'' @ [CR] @ ''*/'') = ''/*'' @ [CR] @ ''*/'' \<and>
   stripComments (''/*'' @ [LF] @ ''*/'') = [] \<and>
   stripComments (''/*'' @ [CR, LF] @ ''*/'') = [] \<and>
   stripComments (''// a'' @ [CR] @ ''b'') = ''// a'' @ [CR] @ ''b''"
  by (simp add: stripComments_scan stripComments_Nil)

subsection \<open>C7\<close>

text \<open>
  C7. On the well-formed text \<^verbatim>\<open>/*\r*/{}\<close> the stripper of the source returns the text
  unchanged, while the reference stripper returns \<^verbatim>\<open>{}\<close>: the two differ, and so do the
  values parsed from them.
\<close>

theorem stripComments_differs_from_reference:
  "wellformed False Code (''/*'' @ [CR] @ ''*/{}'') \<and>
   stripComments (''/*'' @ [CR] @ ''*/{}'') = ''/*'' @ [CR] @ ''*/{}'' \<and>
   reference_strip Code (''/*'' @ [CR] @ ''*/{}'') = ''{}''"
  by (simp add: stripComments_scan stripComments_Nil)

subsection \<open>C8\<close>

text \<open>
  C8. \<open>process.argv[0]\<close> is the path of the executable, not a flag. Then \<open>_compute\<close> returns
  \<open>undefined\<close> exactly when \<open>--no-cached-data\<close> is among the arguments, or \<open>VSCODE_DEV\<close> is
  set, or no commit is known; otherwise it returns the path joined from the user-data path,
  \<open>CachedData\<close> and the commit. The result depends on nothing but these four inputs.
\<close>

theorem NodeCachedDir_compute_disabled:
  assumes "indexOf (argv G) ''--no-cached-data'' \<noteq> 0"
  shows "(NodeCachedDir_compute C G env = None \<longleftrightarrow>
            ''--no-cached-data'' \<in> set (argv G) \<or> truthy_str (env ''VSCODE_DEV'') \<or>
            \<not> truthy_str (commit G)) \<and>
         (NodeCachedDir_compute C G env \<noteq> None \<longrightarrow>
            (\<exists>buildId. commit G = Some buildId \<and>
               NodeCachedDir_compute C G env =
                 Some (path_join C [userDataPath G, ''CachedData'', buildId]))) \<and>
         (argv G' = argv G \<and> commit G' = commit G \<and> userDataPath G' = userDataPath G \<and>
          env' ''VSCODE_DEV'' = env ''VSCODE_DEV'' \<longrightarrow>
            NodeCachedDir_compute C G' env' = NodeCachedDir_compute C G env)"
  using indexOf_pos [OF assms]
  by (auto simp: NodeCachedDir_compute_def truthy_str_def split: option.splits)

theorem NodeCachedDir_compute_disabled_witness:
  "indexOf (argv (sample_globals AUndefined)) ''--no-cached-data'' \<noteq> 0 \<and>
   NodeCachedDir_compute (sample_collaborators (Inl ENOENT) [] (\<lambda>_. Inr None) ''en'' (Inr ()))
     (sample_globals AUndefined) (\<lambda>_. None) = Some ''/data/CachedData/abc123'' \<and>
   indexOf (argv ((sample_globals AUndefined)\<lparr>argv := [''/app/code'', ''--no-cached-data'']\<rparr>))
     ''--no-cached-data'' \<noteq> 0 \<and>
   NodeCachedDir_compute (sample_collaborators (Inl ENOENT) [] (\<lambda>_. Inr None) ''en'' (Inr ()))
     ((sample_globals AUndefined)\<lparr>argv := [''/app/code'', ''--no-cached-data'']\<rparr>) (\<lambda>_. None) = None"
  using NodeCachedDir_compute_disabled
    [of "sample_globals AUndefined"
        "sample_collaborators (Inl ENOENT) [] (\<lambda>_. Inr None) ''en'' (Inr ())" "\<lambda>_. None"
        "sample_globals AUndefined" "\<lambda>_. None"]
    NodeCachedDir_compute_disabled
    [of "(sample_globals AUndefined)\<lparr>argv := [''/app/code'', ''--no-cached-data'']\<rparr>"
        "sample_collaborators (Inl ENOENT) [] (\<lambda>_. Inr None) ''en'' (Inr ())" "\<lambda>_. None"
        "sample_globals AUndefined" "\<lambda>_. None"]
  by (simp add: sample_globals_def sample_collaborators_def truthy_str_def)

subsection \<open>C9\<close>

text \<open>
  C9. Where \<open>JSON.parse\<close> reads the default template without its comments as the default
  configuration: loading changes the disk only when the flags file is absent, and then by
  writing the template; on any other read failure and on a parse failure it logs a warning,
  returns the default configuration and leaves the world otherwise as it is; loading twice
  returns the same configuration twice, and a file that exists is never rewritten.
\<close>

theorem loadFlagsConfig_writes_only_when_absent:
  assumes "JSON_parse C strippedDefaultFlagsConfig = Some default_flagsConfig"
  shows "(disk (snd (loadFlagsConfig C G w)) \<noteq> disk w \<longrightarrow>
            entries (disk w) (flagsConfigPath C G) = Absent \<and>
            disk (snd (loadFlagsConfig C G w)) =
              (disk w)\<lparr>entries :=
                 (entries (disk w))(flagsConfigPath C G := File defaultFlagsConfigRaw)\<rparr>) \<and>
         (\<forall>e. (readFileSync (disk w) (flagsConfigPath C G) = Inl e \<and> e \<noteq> ENOENT) \<or>
              (e = SyntaxError \<and>
               (\<exists>content. readFileSync (disk w) (flagsConfigPath C G) = Inr content \<and>
                  JSON_parse C (stripComments content) = None)) \<longrightarrow>
            loadFlagsConfig C G w =
              (default_flagsConfig, w\<lparr>flags_console := flags_console w @ [ConsoleWarn e]\<rparr>)) \<and>
         fst (loadFlagsConfig C G (snd (loadFlagsConfig C G w))) = fst (loadFlagsConfig C G w) \<and>
         (entries (disk w) (flagsConfigPath C G) \<noteq> Absent \<longrightarrow>
            disk (snd (loadFlagsConfig C G (snd (loadFlagsConfig C G w)))) = disk w)"
proof (cases "entries (disk w) (flagsConfigPath C G)")
  case Absent
  show ?thesis
  proof (cases "write_fault (disk w) (flagsConfigPath C G)")
    case None
    let ?w1 = "w\<lparr>disk := (disk w)\<lparr>entries :=
                 (entries (disk w))(flagsConfigPath C G := File defaultFlagsConfigRaw)\<rparr>\<rparr>"
    have l1: "loadFlagsConfig C G w = (default_flagsConfig, ?w1)"
      using loadFlagsConfig_Absent [OF Absent] None by simp
    have "entries (disk ?w1) (flagsConfigPath C G) = File defaultFlagsConfigRaw" by simp
    from loadFlagsConfig_File [OF this]
    have l2: "loadFlagsConfig C G ?w1 = (default_flagsConfig, ?w1)"
      using assms by (simp add: stripComments_default)
    show ?thesis using Absent by (simp add: l1 l2 readFileSync_def)
  next
    case (Some e')
    let ?w1 = "w\<lparr>flags_console := flags_console w @ [ConsoleError e']\<rparr>"
    have l1: "loadFlagsConfig C G w = (default_flagsConfig, ?w1)"
      using loadFlagsConfig_Absent [OF Absent] Some by simp
    have "entries (disk ?w1) (flagsConfigPath C G) = Absent" using Absent by simp
    from loadFlagsConfig_Absent [OF this]
    have l2: "fst (loadFlagsConfig C G ?w1) = default_flagsConfig" by simp
    show ?thesis using Absent by (simp add: l1 l2 readFileSync_def)
  qed
next
  case (Unreadable f)
  let ?w1 = "w\<lparr>flags_console := flags_console w @ [ConsoleWarn (Fault f)]\<rparr>"
  have l1: "loadFlagsConfig C G w = (default_flagsConfig, ?w1)"
    using loadFlagsConfig_Unreadable [OF Unreadable] by simp
  have "entries (disk ?w1) (flagsConfigPath C G) = Unreadable f" using Unreadable by simp
  from loadFlagsConfig_Unreadable [OF this]
  have l2: "loadFlagsConfig C G ?w1 =
      (default_flagsConfig, ?w1\<lparr>flags_console := flags_console ?w1 @ [ConsoleWarn (Fault f)]\<rparr>)" .
  show ?thesis using Unreadable by (auto simp: l1 l2 readFileSync_def)
next
  case (File content)
  show ?thesis
  proof (cases "JSON_parse C (stripComments content)")
    case None
    let ?w1 = "w\<lparr>flags_console := flags_console w @ [ConsoleWarn SyntaxError]\<rparr>"
    have l1: "loadFlagsConfig C G w = (default_flagsConfig, ?w1)"
      using loadFlagsConfig_File [OF File] None by simp
    have "entries (disk ?w1) (flagsConfigPath C G) = File content" using File by simp
    from loadFlagsConfig_File [OF this] None
    have l2: "loadFlagsConfig C G ?w1 =
      (default_flagsConfig, ?w1\<lparr>flags_console := flags_console ?w1 @ [ConsoleWarn SyntaxError]\<rparr>)"
      by simp
    show ?thesis using File None by (auto simp: l1 l2 readFileSync_def)
  next
    case (Some flagsConfig)
    have l1: "loadFlagsConfig C G w = (flagsConfig, w)"
      using loadFlagsConfig_File [OF File] Some by simp
    show ?thesis using File Some by (auto simp: l1 readFileSync_def)
  qed
qed

theorem loadFlagsConfig_writes_only_when_absent_witness:
  "JSON_parse (sample_collaborators (Inl ENOENT)
       [(strippedDefaultFlagsConfig, default_flagsConfig)] sample_provider ''en'' (Inr ()))
     strippedDefaultFlagsConfig = Some default_flagsConfig \<and>
   fst (loadFlagsConfig
     (sample_collaborators (Inl ENOENT)
        [(strippedDefaultFlagsConfig, default_flagsConfig)] sample_provider ''en'' (Inr ()))
     (sample_globals AUndefined)
     (snd (loadFlagsConfig
        (sample_collaborators (Inl ENOENT)
           [(strippedDefaultFlagsConfig, default_flagsConfig)] sample_provider ''en'' (Inr ()))
        (sample_globals AUndefined) (sample_disk Absent)))) = default_flagsConfig \<and>
   entries (disk (snd (loadFlagsConfig
        (sample_collaborators (Inl ENOENT)
           [(strippedDefaultFlagsConfig, default_flagsConfig)] sample_provider ''en'' (Inr ()))
        (sample_globals AUndefined) (sample_disk Absent)))) ''/data/User/flags.json'' =
     File defaultFlagsConfigRaw"
proof -
  let ?C = "sample_collaborators (Inl ENOENT)
       [(strippedDefaultFlagsConfig, default_flagsConfig)] sample_provider ''en'' (Inr ())"
  have h: "JSON_parse ?C strippedDefaultFlagsConfig = Some default_flagsConfig"
    by (simp add: sample_collaborators_def)
  have p: "flagsConfigPath ?C (sample_globals AUndefined) = ''/data/User/flags.json''"
    by (simp add: flagsConfigPath_def sample_collaborators_def sample_globals_def)
  have l1: "loadFlagsConfig ?C (sample_globals AUndefined) (sample_disk Absent) =
      (default_flagsConfig,
       (sample_disk Absent)\<lparr>disk := (disk (sample_disk Absent))\<lparr>entries :=
          (entries (disk (sample_disk Absent)))
            (''/data/User/flags.json'' := File defaultFlagsConfigRaw)\<rparr>\<rparr>)"
    using loadFlagsConfig_Absent [of "sample_disk Absent" ?C "sample_globals AUndefined",
        unfolded p]
    by (simp add: sample_disk_def)
  from loadFlagsConfig_writes_only_when_absent
    [OF h, of "sample_globals AUndefined" "sample_disk Absent"] h
  show ?thesis by (simp add: l1)
qed

subsection \<open>C10\<close>

text \<open>
  C10. Whatever configuration \<open>startup\<close> is given, \<open>VSCODE_NLS_CONFIG\<close> is set to the
  serialisation of that configuration with \<open>_languagePackSupport\<close> set to \<open>true\<close> and every
  other property as before; for the fallback configuration of a locale this is the object of
  \<open>locale\<close>, \<open>availableLanguages\<close> and \<open>_languagePackSupport\<close>.
\<close>

theorem startup_languagePackSupport:
  "(\<exists>nlsConfig'.
     process_env (startup C cachedDataDir nlsConfig st) ''VSCODE_NLS_CONFIG'' =
       Some (JSON_stringify C (JObject nlsConfig')) \<and>
     map_of nlsConfig' = (map_of nlsConfig)(''_languagePackSupport'' \<mapsto> JBool True) \<and>
     map_of nlsConfig' ''_languagePackSupport'' = Some (JBool True)) \<and>
   process_env (startup C cachedDataDir (fallback_configuration locale) st) ''VSCODE_NLS_CONFIG'' =
     Some (JSON_stringify C (JObject
       [(''locale'', JString locale), (''availableLanguages'', JObject []),
        (''_languagePackSupport'', JBool True)]))"
proof
  show "\<exists>nlsConfig'.
     process_env (startup C cachedDataDir nlsConfig st) ''VSCODE_NLS_CONFIG'' =
       Some (JSON_stringify C (JObject nlsConfig')) \<and>
     map_of nlsConfig' = (map_of nlsConfig)(''_languagePackSupport'' \<mapsto> JBool True) \<and>
     map_of nlsConfig' ''_languagePackSupport'' = Some (JBool True)"
    by (rule exI [of _ "set_prop nlsConfig ''_languagePackSupport'' (JBool True)"])
      (simp add: startup_def Let_def map_of_set_prop)
  show "process_env (startup C cachedDataDir (fallback_configuration locale) st)
      ''VSCODE_NLS_CONFIG'' =
     Some (JSON_stringify C (JObject
       [(''locale'', JString locale), (''availableLanguages'', JObject []),
        (''_languagePackSupport'', JBool True)]))"
    by (simp add: startup_def Let_def fallback_configuration_def)
qed

end
